theory Spec2Isabelle
  imports Complex_Main
begin

section \<open>Numbers\<close>

text \<open>
  The program computes with JavaScript numbers. The state machines, the drawing and the
  saturating formulas are modelled on mathematical reals: their statements below are about
  the control flow and the formulas in exact arithmetic, and where the code could divide
  by zero the theorems carry the hypothesis that excludes it. The impulse and the
  gravitational force are also modelled on the doubles themselves, since whether they are
  strictly monotone depends on the rounding.
\<close>


type_synonym number = real

section \<open>physics-simulations.ts: the formula library\<close>

subsection \<open>HammerNail\<close>

definition calculateImpulse :: "number \<Rightarrow> number \<Rightarrow> number" where
  "calculateImpulse mass velocity = \<bar>mass * velocity\<bar>"

definition calculatePenetrationDepth :: "number \<Rightarrow> number" where
  "calculatePenetrationDepth impulse = min (impulse * 0.8) 60"

definition calculateForceMagnitude :: "number \<Rightarrow> number" where
  "calculateForceMagnitude impulse = max (min (impulse * 1.5) 150) 50"

subsection \<open>Gravity\<close>

text \<open>\<open>Gravity.calculateForceMagnitude\<close> of the library; the name is suffixed because
  \<open>HammerNail\<close> has a function of the same name.\<close>

definition calculateForceMagnitude_Gravity ::
  "number \<Rightarrow> number \<Rightarrow> number \<Rightarrow> number \<Rightarrow> number" where
  "calculateForceMagnitude_Gravity G mass1 mass2 distance =
     (if distance \<le> 0 then 0 else (G * mass1 * mass2) / (distance * distance))"

section \<open>GravitySimulation.tsx: the local formulas\<close>

definition GRAVITATIONAL_CONSTANT :: number where
  "GRAVITATIONAL_CONSTANT = 15000"

definition calculateGravitationalForce :: "number \<Rightarrow> number \<Rightarrow> number \<Rightarrow> number" where
  "calculateGravitationalForce earthMassVal moonMassVal distance =
     (if distance \<le> 0 then 0
      else (GRAVITATIONAL_CONSTANT * earthMassVal * moonMassVal) / (distance * distance))"

definition calculateOrbitalVelocity :: "number \<Rightarrow> number \<Rightarrow> number" where
  "calculateOrbitalVelocity earthMassVal distance =
     (if distance \<le> 0 then 0
      else sqrt ((GRAVITATIONAL_CONSTANT * earthMassVal) / distance))"

subsection \<open>The orbital velocity with partial division and square root\<close>

text \<open>
  The arithmetic of \<open>calculateOrbitalVelocity\<close> once more, with the two operations that
  can leave the finite numbers made partial: a division by zero and the square root of a
  negative number give \<open>None\<close> (in JavaScript, Infinity or NaN).
\<close>

definition checked_div :: "number \<Rightarrow> number \<Rightarrow> number option" where
  "checked_div a b = (if b = 0 then None else Some (a / b))"

definition checked_sqrt :: "number \<Rightarrow> number option" where
  "checked_sqrt a = (if a < 0 then None else Some (sqrt a))"

definition calculateOrbitalVelocity_checked :: "number \<Rightarrow> number \<Rightarrow> number option" where
  "calculateOrbitalVelocity_checked earthMassVal distance =
     (if distance \<le> 0 then Some 0
      else (case checked_div (GRAVITATIONAL_CONSTANT * earthMassVal) distance of
              None \<Rightarrow> None
            | Some q \<Rightarrow> checked_sqrt q))"

section \<open>Binary64 arithmetic\<close>

text \<open>
  A JavaScript number is an IEEE 754 double: a finite value, an infinity or NaN. A finite
  double is written \<open>Num x\<close> with \<open>x\<close> the real it stands for (\<open>is_double x\<close> says that \<open>x\<close> is
  one). The sign of zero is not kept: no operation below is applied to a negative zero.
\<close>

datatype js_number = Num real | Infinity | MinusInfinity | NaN

subsection \<open>Rounding to the nearest double\<close>

text \<open>
  \<open>pow2 k\<close> is the power of two with exponent \<open>k\<close>. \<open>binade x\<close> is the exponent of the
  positive \<open>x\<close>, the \<open>k\<close> with \<open>pow2 k \<le> x < pow2 (k + 1)\<close>, found by halving or doubling
  and not below the exponent -1022 of the subnormal numbers. Doubles of that exponent are
  the multiples of \<open>quantum x\<close>, 52 binary places further down. \<open>fl\<close> rounds to the nearest
  of them, a tie to the even multiple; \<open>round_double\<close> is the result of an operation whose
  exact value is \<open>x\<close>, an infinity from \<open>pow2 1024\<close> on.
\<close>

definition pow2 :: "int \<Rightarrow> real" where
  "pow2 k = (if 0 \<le> k then 2 ^ nat k else 1 / 2 ^ nat (- k))"

function binade_up :: "real \<Rightarrow> int \<Rightarrow> int" where
  "binade_up x k = (if 2 \<le> x then binade_up (x / 2) (k + 1) else k)"
  by pat_completeness auto
termination
proof (relation "measure (\<lambda>(x, k). nat \<lceil>x\<rceil>)")
  show "wf (measure (\<lambda>(x, k). nat \<lceil>x\<rceil>))"
    by simp
next
  fix x :: real and k :: int
  assume "2 \<le> x"
  then have "\<lceil>x / 2\<rceil> < \<lceil>x\<rceil>" and "0 < \<lceil>x\<rceil>"
    by linarith+
  then show "((x / 2, k + 1), (x, k)) \<in> measure (\<lambda>(x, k). nat \<lceil>x\<rceil>)"
    by simp
qed

function binade_down :: "real \<Rightarrow> int \<Rightarrow> int" where
  "binade_down x k = (if x < 1 \<and> - 1022 < k then binade_down (2 * x) (k - 1) else k)"
  by pat_completeness auto
termination
  by (relation "measure (\<lambda>(x, k). nat (k + 1022))") auto

declare binade_up.simps [simp del] binade_down.simps [simp del]

definition binade :: "real \<Rightarrow> int" where
  "binade x = (if 1 \<le> x then binade_up x 0 else binade_down x 0)"

definition quantum :: "real \<Rightarrow> real" where
  "quantum x = pow2 (binade x - 52)"

definition round_even :: "real \<Rightarrow> int" where
  "round_even y =
     (let f = \<lfloor>y\<rfloor>; d = y - of_int f
      in if d < 1 / 2 then f else if 1 / 2 < d then f + 1 else if even f then f else f + 1)"

definition fl :: "real \<Rightarrow> real" where
  "fl x =
     (if x = 0 then 0
      else if 0 < x then of_int (round_even (x / quantum x)) * quantum x
      else - (of_int (round_even (- x / quantum (- x))) * quantum (- x)))"

definition round_double :: "real \<Rightarrow> js_number" where
  "round_double x =
     (let y = fl x
      in if pow2 1024 \<le> y then Infinity
         else if y \<le> - pow2 1024 then MinusInfinity
         else Num y)"

definition is_double :: "real \<Rightarrow> bool" where
  "is_double x = (round_double x = Num x)"

subsection \<open>The operations\<close>

text \<open>Multiplication, division, \<open>Math.abs\<close> and the comparisons \<open><=\<close> and \<open><\<close> of
  JavaScript; a comparison with NaN is false.\<close>

fun js_sign :: "js_number \<Rightarrow> real" where
  "js_sign (Num x) = sgn x"
| "js_sign Infinity = 1"
| "js_sign MinusInfinity = - 1"
| "js_sign NaN = 0"

fun js_neg :: "js_number \<Rightarrow> js_number" where
  "js_neg (Num x) = Num (- x)"
| "js_neg Infinity = MinusInfinity"
| "js_neg MinusInfinity = Infinity"
| "js_neg NaN = NaN"

fun js_mul :: "js_number \<Rightarrow> js_number \<Rightarrow> js_number" where
  "js_mul (Num x) (Num y) = round_double (x * y)"
| "js_mul NaN b = NaN"
| "js_mul a NaN = NaN"
| "js_mul a b =
     (if 0 < js_sign a * js_sign b then Infinity
      else if js_sign a * js_sign b < 0 then MinusInfinity
      else NaN)"

fun js_div :: "js_number \<Rightarrow> js_number \<Rightarrow> js_number" where
  "js_div (Num x) (Num y) =
     (if y = 0 then (if 0 < x then Infinity else if x < 0 then MinusInfinity else NaN)
      else round_double (x / y))"
| "js_div NaN b = NaN"
| "js_div a NaN = NaN"
| "js_div (Num x) b = Num 0"
| "js_div a (Num y) = (if 0 \<le> y then a else js_neg a)"
| "js_div a b = NaN"

fun js_abs :: "js_number \<Rightarrow> js_number" where
  "js_abs (Num x) = Num \<bar>x\<bar>"
| "js_abs Infinity = Infinity"
| "js_abs MinusInfinity = Infinity"
| "js_abs NaN = NaN"

fun js_le :: "js_number \<Rightarrow> js_number \<Rightarrow> bool" where
  "js_le (Num x) (Num y) = (x \<le> y)"
| "js_le NaN b = False"
| "js_le a NaN = False"
| "js_le MinusInfinity b = True"
| "js_le a Infinity = True"
| "js_le a b = False"

fun js_lt :: "js_number \<Rightarrow> js_number \<Rightarrow> bool" where
  "js_lt (Num x) (Num y) = (x < y)"
| "js_lt NaN b = False"
| "js_lt a NaN = False"
| "js_lt Infinity b = False"
| "js_lt a MinusInfinity = False"
| "js_lt a b = True"

subsection \<open>The formulas on doubles\<close>

text \<open>
  \<open>HammerNail.calculateImpulse\<close>, \<open>Gravity.calculateForceMagnitude\<close> and the component's
  \<open>calculateGravitationalForce\<close> once more, with the operations of the doubles in the
  order the source applies them.
\<close>

definition calculateImpulse_binary64 :: "js_number \<Rightarrow> js_number \<Rightarrow> js_number" where
  "calculateImpulse_binary64 mass velocity = js_abs (js_mul mass velocity)"

definition calculateForceMagnitude_Gravity_binary64 ::
  "js_number \<Rightarrow> js_number \<Rightarrow> js_number \<Rightarrow> js_number \<Rightarrow> js_number" where
  "calculateForceMagnitude_Gravity_binary64 G mass1 mass2 distance =
     (if js_le distance (Num 0) then Num 0
      else js_div (js_mul (js_mul G mass1) mass2) (js_mul distance distance))"

definition calculateGravitationalForce_binary64 ::
  "js_number \<Rightarrow> js_number \<Rightarrow> js_number \<Rightarrow> js_number" where
  "calculateGravitationalForce_binary64 earthMassVal moonMassVal distance =
     (if js_le distance (Num 0) then Num 0
      else js_div (js_mul (js_mul (Num GRAVITATIONAL_CONSTANT) earthMassVal) moonMassVal)
             (js_mul distance distance))"

section \<open>NewtonsThirdLawSimulation.tsx: the hammer and the nail\<close>

subsection \<open>Types and configuration\<close>

datatype SimulationState = Idle | Swinging | Contact | Pause | Resetting

record AnimationState =
  state :: SimulationState
  hammerAngle :: number
  nailDepth :: number
  maxDepth :: number
  forceMagnitude :: number

text \<open>The keys of \<open>MASS_MAP\<close> and of \<open>SWING_SPEED_RADS\<close>: the values of the two radio groups.\<close>

datatype MassOption = MassLight | MassMedium | MassHeavy

datatype SpeedOption = SpeedSlow | SpeedMedium | SpeedFast

fun MASS_MAP :: "MassOption \<Rightarrow> number" where
  "MASS_MAP MassLight = 1"
| "MASS_MAP MassMedium = 5"
| "MASS_MAP MassHeavy = 10"

fun SWING_SPEED_RADS :: "SpeedOption \<Rightarrow> number" where
  "SWING_SPEED_RADS SpeedSlow = 0.05"
| "SWING_SPEED_RADS SpeedMedium = 0.1"
| "SWING_SPEED_RADS SpeedFast = 0.15"

definition GROUND_Y :: number where
  "GROUND_Y = 450"

definition NAIL_X :: number where
  "NAIL_X = 400"

definition HAMMER_IMPACT_ANGLE :: number where
  "HAMMER_IMPACT_ANGLE = pi / 20"

definition INITIAL_HAMMER_ANGLE :: number where
  "INITIAL_HAMMER_ANGLE = pi / 5"

text \<open>The value \<open>physicsRef\<close> is created with.\<close>

definition physicsRef_initial :: AnimationState where
  "physicsRef_initial =
     \<lparr>state = Idle, hammerAngle = INITIAL_HAMMER_ANGLE, nailDepth = 0, maxDepth = 0,
      forceMagnitude = 0\<rparr>"

subsection \<open>The animation loop\<close>

text \<open>
  One call of \<open>update\<close>: the state machine's step on \<open>physicsRef.current\<close>, with the mass
  and the speed selected at that frame. The mirror of the phase kept for the buttons
  (\<open>simState\<close>) and the scheduling of the next frame are not part of the physics state.
\<close>

definition update :: "MassOption \<Rightarrow> SpeedOption \<Rightarrow> AnimationState \<Rightarrow> AnimationState" where
  "update massOption speedOption phys =
     (case state phys of
        Idle \<Rightarrow> phys\<lparr>hammerAngle := INITIAL_HAMMER_ANGLE\<rparr>
      | Swinging \<Rightarrow>
          (let speed = SWING_SPEED_RADS speedOption;
               phys1 = phys\<lparr>hammerAngle := hammerAngle phys - speed\<rparr>
           in if hammerAngle phys1 \<le> HAMMER_IMPACT_ANGLE
              then (let mass = MASS_MAP massOption;
                        impulse = calculateImpulse mass speed;
                        depth = calculatePenetrationDepth impulse
                    in phys1\<lparr>state := Contact,
                             maxDepth := maxDepth phys1 + depth,
                             forceMagnitude := calculateForceMagnitude impulse\<rparr>)
              else phys1)
      | Contact \<Rightarrow>
          (if nailDepth phys < maxDepth phys
           then phys\<lparr>nailDepth := nailDepth phys + 5\<rparr>
           else phys\<lparr>nailDepth := maxDepth phys, state := Pause\<rparr>)
      | Pause \<Rightarrow> phys
      | Resetting \<Rightarrow>
          (let phys1 = phys\<lparr>hammerAngle := hammerAngle phys + 0.1\<rparr>;
               phys2 = (if nailDepth phys1 > 0
                        then phys1\<lparr>nailDepth := nailDepth phys1 - 2\<rparr> else phys1)
           in if hammerAngle phys2 \<ge> INITIAL_HAMMER_ANGLE
              then phys2\<lparr>state := Idle, nailDepth := 0,
                           hammerAngle := INITIAL_HAMMER_ANGLE\<rparr>
              else phys2))"

subsection \<open>The handlers\<close>

text \<open>\<open>handleHit\<close> is the click handler of the first button whatever its label (HIT or UP),
  \<open>handleReset\<close> that of the second; the component has no other handler.\<close>

definition handleHit :: "AnimationState \<Rightarrow> AnimationState" where
  "handleHit phys = phys\<lparr>state := Swinging\<rparr>"

definition handleReset :: "AnimationState \<Rightarrow> AnimationState" where
  "handleReset phys =
     phys\<lparr>state := Idle, hammerAngle := INITIAL_HAMMER_ANGLE, nailDepth := 0, maxDepth := 0,
          forceMagnitude := 0\<rparr>"

text \<open>The states the component can be in: the initial one, and those that frames and
  clicks lead to, in any order and with any selection of mass and speed.\<close>

inductive reachable :: "AnimationState \<Rightarrow> bool" where
  reachable_initial: "reachable physicsRef_initial"
| reachable_update: "reachable phys \<Longrightarrow> reachable (update massOption speedOption phys)"
| reachable_handleHit: "reachable phys \<Longrightarrow> reachable (handleHit phys)"
| reachable_handleReset: "reachable phys \<Longrightarrow> reachable (handleReset phys)"

subsection \<open>A run of the hammer scenario\<close>

text \<open>
  The run the statements below refer to: from the initial state, Hit with the heavy hammer
  at the fast speed. \<open>first_contact\<close> is the state after four frames, \<open>first_pause\<close> the
  state two frames later.
\<close>

definition first_contact :: AnimationState where
  "first_contact = (update MassHeavy SpeedFast ^^ 4) (handleHit physicsRef_initial)"

definition first_pause :: AnimationState where
  "first_pause = (update MassHeavy SpeedFast ^^ 2) first_contact"

text \<open>The number of frames of a swing from the raised position, by speed.\<close>

fun swing_frames :: "SpeedOption \<Rightarrow> nat" where
  "swing_frames SpeedSlow = 10"
| "swing_frames SpeedMedium = 5"
| "swing_frames SpeedFast = 4"

subsection \<open>Drawing the force arrows\<close>

text \<open>
  \<open>Vector2D\<close> is \<open>{x, y}\<close>, written as a pair. Of what \<open>drawScene\<close> paints, the model keeps
  the calls of \<open>drawArrow\<close>, in order and with all their arguments; of what \<open>drawArrow\<close>
  paints, the shaft, the segment from \<open>(x, y)\<close> to \<open>(endX, endY)\<close>.
\<close>

type_synonym Vector2D = "number \<times> number"

datatype LabelAlign = AlignLeft | AlignRight

record ArrowCall =
  arrow_x :: number
  arrow_y :: number
  arrow_dir :: Vector2D
  arrow_length :: number
  arrow_color :: string
  arrow_label :: string
  arrow_labelAlign :: LabelAlign

definition invert :: "Vector2D \<Rightarrow> Vector2D" where
  "invert v = (- fst v, - snd v)"

definition drawArrow_shaft :: "ArrowCall \<Rightarrow> (number \<times> number) \<times> (number \<times> number)" where
  "drawArrow_shaft a =
     (let endX = arrow_x a + fst (arrow_dir a) * arrow_length a;
          endY = arrow_y a + snd (arrow_dir a) * arrow_length a
      in ((arrow_x a, arrow_y a), (endX, endY)))"

text \<open>The length of the painted shaft.\<close>

definition rendered_length :: "ArrowCall \<Rightarrow> number" where
  "rendered_length a =
     (case drawArrow_shaft a of
        ((x0, y0), (x1, y1)) \<Rightarrow> sqrt ((x1 - x0) * (x1 - x0) + (y1 - y0) * (y1 - y0)))"

text \<open>\<open>drawScene\<close> of the hammer scenario; \<open>ctx\<close> tells whether the canvas and its 2d context
  are there (the function returns at once when they are not).\<close>

definition drawScene :: "bool \<Rightarrow> AnimationState \<Rightarrow> ArrowCall list" where
  "drawScene ctx phys =
     (if \<not> ctx then []
      else
        (let NAIL_INITIAL_OFFSET = 50;
             currentNailY = GROUND_Y - NAIL_INITIAL_OFFSET + nailDepth phys
         in if state phys = Pause
            then (let contactX = NAIL_X; contactY = currentNailY + 5
                  in [\<lparr>arrow_x = contactX, arrow_y = contactY, arrow_dir = (0, - 1),
                        arrow_length = forceMagnitude phys, arrow_color = ''#FF0000'',
                        arrow_label = ''F_N'', arrow_labelAlign = AlignRight\<rparr>,
                      \<lparr>arrow_x = contactX, arrow_y = contactY, arrow_dir = (0, 1),
                        arrow_length = forceMagnitude phys, arrow_color = ''#00C853'',
                        arrow_label = ''F_H'', arrow_labelAlign = AlignRight\<rparr>])
            else []))"

section \<open>GravitySimulation.tsx: the Earth and the Moon\<close>

subsection \<open>Types and configuration\<close>

datatype GravitySimState = GravityIdle | Running | Paused

text \<open>The record of the gravity scenario; the fields that share a name with the hammer
  scenario's carry the suffix \<open>_g\<close>. A path point \<open>{x, y}\<close> is a pair.\<close>

record GravityAnimationState =
  state_g :: GravitySimState
  moonX :: number
  moonY :: number
  moonAngle :: number
  moonDistance :: number
  moonVelocity :: number
  forceMagnitude_g :: number
  pathPoints :: "(number \<times> number) list"

definition CANVAS_WIDTH :: number where
  "CANVAS_WIDTH = 800"

definition CANVAS_HEIGHT :: number where
  "CANVAS_HEIGHT = 600"

definition EARTH_X :: number where
  "EARTH_X = 400"

definition EARTH_Y :: number where
  "EARTH_Y = 300"

definition MOON_RADIUS :: number where
  "MOON_RADIUS = 15"

definition MIN_DISTANCE :: number where
  "MIN_DISTANCE = 150"

definition MAX_DISTANCE :: number where
  "MAX_DISTANCE = 400"

definition INITIAL_DISTANCE :: number where
  "INITIAL_DISTANCE = 280"

text \<open>The keys \<open>'0.5'\<close>, \<open>'earth'\<close>, \<open>'1.5'\<close> and \<open>'2'\<close> of the gravity scenario's \<open>MASS_MAP\<close>.\<close>

datatype MassKey = Key_0_5 | Key_earth | Key_1_5 | Key_2

fun MASS_MAP_g :: "MassKey \<Rightarrow> number" where
  "MASS_MAP_g Key_0_5 = 0.5"
| "MASS_MAP_g Key_earth = 1"
| "MASS_MAP_g Key_1_5 = 1.5"
| "MASS_MAP_g Key_2 = 2"

definition physicsRef_initial_g :: GravityAnimationState where
  "physicsRef_initial_g =
     \<lparr>state_g = GravityIdle, moonX = EARTH_X + INITIAL_DISTANCE, moonY = EARTH_Y,
      moonAngle = 0, moonDistance = INITIAL_DISTANCE, moonVelocity = 0,
      forceMagnitude_g = 0, pathPoints = []\<rparr>"

subsection \<open>The animation loop\<close>

definition update_g :: "MassKey \<Rightarrow> MassKey \<Rightarrow> GravityAnimationState \<Rightarrow> GravityAnimationState" where
  "update_g earthMass moonMass phys =
     (if state_g phys = Running
      then
        (let earthMassVal = MASS_MAP_g earthMass;
             moonMassVal = MASS_MAP_g moonMass;
             phys1 = phys\<lparr>forceMagnitude_g :=
                       calculateGravitationalForce earthMassVal moonMassVal (moonDistance phys)\<rparr>;
             orbitalSpeed = calculateOrbitalVelocity earthMassVal (moonDistance phys1);
             phys2 = phys1\<lparr>moonVelocity := orbitalSpeed * 0.1\<rparr>;
             phys3 = phys2\<lparr>moonAngle := moonAngle phys2 + moonVelocity phys2 / moonDistance phys2\<rparr>;
             phys4 = phys3\<lparr>moonX := EARTH_X + moonDistance phys3 * cos (moonAngle phys3)\<rparr>;
             phys5 = phys4\<lparr>moonY := EARTH_Y + moonDistance phys4 * sin (moonAngle phys4)\<rparr>;
             phys6 = (if length (pathPoints phys5) > 500
                      then phys5\<lparr>pathPoints := tl (pathPoints phys5)\<rparr> else phys5)
         in phys6\<lparr>pathPoints := pathPoints phys6 @ [(moonX phys6, moonY phys6)]\<rparr>)
      else phys)"

subsection \<open>The handlers\<close>

definition handlePlay :: "GravityAnimationState \<Rightarrow> GravityAnimationState" where
  "handlePlay phys = phys\<lparr>state_g := Running\<rparr>"

definition handlePause :: "GravityAnimationState \<Rightarrow> GravityAnimationState" where
  "handlePause phys = phys\<lparr>state_g := Paused\<rparr>"

definition handleReset_g :: "GravityAnimationState \<Rightarrow> GravityAnimationState" where
  "handleReset_g phys =
     phys\<lparr>state_g := GravityIdle, moonX := EARTH_X + INITIAL_DISTANCE, moonY := EARTH_Y,
          moonAngle := 0, moonDistance := INITIAL_DISTANCE, moonVelocity := 0,
          forceMagnitude_g := 0, pathPoints := []\<rparr>"

subsection \<open>Dragging the Moon\<close>

text \<open>\<open>Math.atan2\<close> on reals (no signed zero: \<open>atan2(0, x)\<close> is \<open>pi\<close> for negative \<open>x\<close>).\<close>

definition Math_atan2 :: "number \<Rightarrow> number \<Rightarrow> number" where
  "Math_atan2 y x =
     (if 0 < x then arctan (y / x)
      else if x < 0 then (if 0 \<le> y then arctan (y / x) + pi else arctan (y / x) - pi)
      else if 0 < y then pi / 2
      else if y < 0 then - (pi / 2)
      else 0)"

record MouseEvent =
  clientX :: number
  clientY :: number

text \<open>What \<open>getBoundingClientRect\<close> returns, as far as the handlers read it.\<close>

record DOMRect =
  rect_left :: number
  rect_top :: number
  rect_width :: number
  rect_height :: number

text \<open>The distance of the pointer from the Earth's centre before it is constrained:
  the value of \<open>distance\<close> after its first assignment in \<open>handleCanvasMouseMove\<close>.\<close>

definition pointer_distance :: "DOMRect \<Rightarrow> MouseEvent \<Rightarrow> number" where
  "pointer_distance rect e =
     (let x = (clientX e - rect_left rect) * (CANVAS_WIDTH / rect_width rect);
          y = (clientY e - rect_top rect) * (CANVAS_HEIGHT / rect_height rect);
          dx = x - EARTH_X;
          dy = y - EARTH_Y
      in sqrt (dx * dx + dy * dy))"

text \<open>\<open>isDragging\<close> is \<open>isDraggingRef.current\<close>; \<open>canvas\<close> is the bounding rectangle of the
  canvas, \<open>None\<close> when \<open>canvasRef.current\<close> is null.\<close>

definition handleCanvasMouseDown ::
  "DOMRect option \<Rightarrow> MouseEvent \<Rightarrow> GravityAnimationState \<Rightarrow> bool \<Rightarrow> bool" where
  "handleCanvasMouseDown canvas e phys isDragging =
     (case canvas of
        None \<Rightarrow> isDragging
      | Some rect \<Rightarrow>
          (let x = (clientX e - rect_left rect) * (CANVAS_WIDTH / rect_width rect);
               y = (clientY e - rect_top rect) * (CANVAS_HEIGHT / rect_height rect);
               distToMoon = sqrt ((x - moonX phys) ^ 2 + (y - moonY phys) ^ 2)
           in if distToMoon < MOON_RADIUS + 10 then True else isDragging))"

definition handleCanvasMouseMove ::
  "bool \<Rightarrow> DOMRect option \<Rightarrow> MouseEvent \<Rightarrow> GravityAnimationState \<Rightarrow> GravityAnimationState" where
  "handleCanvasMouseMove isDragging canvas e phys =
     (if \<not> isDragging then phys
      else
        (case canvas of
           None \<Rightarrow> phys
         | Some rect \<Rightarrow>
             (let x = (clientX e - rect_left rect) * (CANVAS_WIDTH / rect_width rect);
                  y = (clientY e - rect_top rect) * (CANVAS_HEIGHT / rect_height rect);
                  dx = x - EARTH_X;
                  dy = y - EARTH_Y;
                  distance0 = sqrt (dx * dx + dy * dy);
                  distance = max MIN_DISTANCE (min MAX_DISTANCE distance0);
                  phys1 = phys\<lparr>moonDistance := distance\<rparr>;
                  phys2 = phys1\<lparr>moonAngle := Math_atan2 dy dx\<rparr>;
                  phys3 = phys2\<lparr>moonX := EARTH_X + distance * cos (moonAngle phys2)\<rparr>
              in phys3\<lparr>moonY := EARTH_Y + distance * sin (moonAngle phys3)\<rparr>)))"

subsection \<open>Drawing the force arrows\<close>

text \<open>\<open>drawScene\<close> of the gravity scenario, with the \<open>showForceArrows\<close> it was created with.\<close>

definition drawScene_g :: "bool \<Rightarrow> bool \<Rightarrow> GravityAnimationState \<Rightarrow> ArrowCall list" where
  "drawScene_g showForceArrows ctx phys =
     (if \<not> ctx then []
      else if showForceArrows
      then
        (let contactX = moonX phys;
             contactY = moonY phys;
             dirToEarth = (EARTH_X - moonX phys, EARTH_Y - moonY phys);
             dirMag = sqrt (fst dirToEarth ^ 2 + snd dirToEarth ^ 2);
             dirNorm = (fst dirToEarth / dirMag, snd dirToEarth / dirMag);
             dirToMoon = (moonX phys - EARTH_X, moonY phys - EARTH_Y);
             dirMag2 = sqrt (fst dirToMoon ^ 2 + snd dirToMoon ^ 2);
             dirNorm2 = (fst dirToMoon / dirMag2, snd dirToMoon / dirMag2)
         in [\<lparr>arrow_x = contactX, arrow_y = contactY, arrow_dir = dirNorm,
               arrow_length = forceMagnitude_g phys, arrow_color = ''#FF6B6B'',
               arrow_label = ''F_E'', arrow_labelAlign = AlignRight\<rparr>,
             \<lparr>arrow_x = EARTH_X, arrow_y = EARTH_Y, arrow_dir = dirNorm2,
               arrow_length = forceMagnitude_g phys, arrow_color = ''#4ECDC4'',
               arrow_label = ''F_M'', arrow_labelAlign = AlignLeft\<rparr>])
      else [])"

subsection \<open>Positions and a sample state\<close>

definition moon_position :: "GravityAnimationState \<Rightarrow> number \<times> number" where
  "moon_position phys = (moonX phys, moonY phys)"

text \<open>A sample state: the Moon at distance 300 from the Earth, at the angle \<open>pi / 2\<close>, with
  the velocity and the force that \<open>update_g\<close> computes at that distance for the masses
  \<open>earth\<close> and \<open>0.5\<close>.\<close>

definition orbit_sample :: GravityAnimationState where
  "orbit_sample =
     \<lparr>state_g = Running, moonX = 400, moonY = 600, moonAngle = pi / 2, moonDistance = 300,
      moonVelocity = sqrt 50 / 10, forceMagnitude_g = 1 / 12, pathPoints = []\<rparr>"

section \<open>Properties of the formulas\<close>

lemma inverse_square_decreasing:
  fixes c r1 r2 :: real
  assumes "0 < c" "0 < r1" "r1 < r2"
  shows "c / (r2 * r2) < c / (r1 * r1)"
proof -
  have "r1 * r1 < r2 * r2"
    using assms by (intro mult_strict_mono) auto
  moreover have "0 < r1 * r1"
    using assms by simp
  ultimately show ?thesis
    using assms(1) by (simp add: divide_strict_left_mono)
qed

text \<open>
  In exact arithmetic the impulse of a positive mass and a positive velocity is their
  product, strictly increasing in the mass and in the velocity.
\<close>

lemma impulse_exact_strict_mono:
  assumes "0 < m" and "0 < v"
  shows "calculateImpulse m v = m * v
       \<and> (\<forall>m'. m < m' \<longrightarrow> calculateImpulse m v < calculateImpulse m' v)
       \<and> (\<forall>v'. v < v' \<longrightarrow> calculateImpulse m v < calculateImpulse m v')"
proof (intro conjI allI impI)
  show "calculateImpulse m v = m * v"
    using assms by (simp add: calculateImpulse_def abs_mult)
next
  fix m' assume "m < m'"
  then have "m * v < m' * v"
    using assms by simp
  moreover have "0 < m'"
    using \<open>m < m'\<close> assms by simp
  ultimately show "calculateImpulse m v < calculateImpulse m' v"
    using assms by (simp add: calculateImpulse_def abs_mult)
next
  fix v' assume "v < v'"
  then have "m * v < m * v'"
    using assms by simp
  moreover have "0 < v'"
    using \<open>v < v'\<close> assms by simp
  ultimately show "calculateImpulse m v < calculateImpulse m v'"
    using assms by (simp add: calculateImpulse_def abs_mult)
qed

text \<open>
  Claim C8. For every impulse \<open>\<ge> 0\<close>, the penetration depth and the force-arrow length
  are monotonically non-decreasing in the impulse and never exceed their caps, 60 for
  the depth and 150 for the arrow length.
\<close>

theorem visual_formulas_saturate:
  assumes "0 \<le> i" and "i \<le> j"
  shows "calculatePenetrationDepth i \<le> calculatePenetrationDepth j
       \<and> calculatePenetrationDepth i \<le> 60
       \<and> calculateForceMagnitude i \<le> calculateForceMagnitude j
       \<and> calculateForceMagnitude i \<le> 150"
  using assms unfolding calculatePenetrationDepth_def calculateForceMagnitude_def
  by (auto simp: min_def max_def)

theorem visual_formulas_saturate_witness:
  "(0::real) \<le> 3 / 2 \<and> (3 / 2 :: real) \<le> 200
   \<and> calculatePenetrationDepth (3 / 2) \<le> calculatePenetrationDepth 200
   \<and> calculatePenetrationDepth (3 / 2) \<le> 60
   \<and> calculateForceMagnitude (3 / 2) \<le> calculateForceMagnitude 200
   \<and> calculateForceMagnitude (3 / 2) \<le> 150"
proof -
  have lo: "(0::real) \<le> 3 / 2" and le: "(3 / 2 :: real) \<le> 200"
    by simp_all
  from visual_formulas_saturate [OF lo le] show ?thesis
    by simp
qed

text \<open>
  In exact arithmetic the gravitational force is 0 for a distance that is not positive,
  and for a positive distance it is \<open>G * m1 * m2 / r\<^sup>2\<close>, strictly positive and strictly
  decreasing in the distance.
\<close>

lemma gravitational_force_exact:
  assumes "0 < G" and "0 < m1" and "0 < m2"
  shows "(\<forall>r. r \<le> 0 \<longrightarrow> calculateForceMagnitude_Gravity G m1 m2 r = 0)
       \<and> (\<forall>r. 0 < r \<longrightarrow> calculateForceMagnitude_Gravity G m1 m2 r = G * m1 * m2 / r\<^sup>2
                     \<and> 0 < calculateForceMagnitude_Gravity G m1 m2 r)
       \<and> (\<forall>r1 r2. 0 < r1 \<and> r1 < r2 \<longrightarrow>
             calculateForceMagnitude_Gravity G m1 m2 r2 < calculateForceMagnitude_Gravity G m1 m2 r1)
       \<and> (\<forall>r. calculateGravitationalForce m1 m2 r =
             calculateForceMagnitude_Gravity GRAVITATIONAL_CONSTANT m1 m2 r)"
proof (intro conjI allI impI)
  fix r :: real assume "r \<le> 0"
  then show "calculateForceMagnitude_Gravity G m1 m2 r = 0"
    by (simp add: calculateForceMagnitude_Gravity_def)
next
  fix r :: real assume "0 < r"
  then show "calculateForceMagnitude_Gravity G m1 m2 r = G * m1 * m2 / r\<^sup>2"
    by (simp add: calculateForceMagnitude_Gravity_def power2_eq_square)
next
  fix r :: real assume "0 < r"
  then show "0 < calculateForceMagnitude_Gravity G m1 m2 r"
    using assms by (simp add: calculateForceMagnitude_Gravity_def)
next
  fix r1 r2 :: real assume r: "0 < r1 \<and> r1 < r2"
  have c: "0 < G * m1 * m2"
    using assms by simp
  from r have "G * m1 * m2 / (r2 * r2) < G * m1 * m2 / (r1 * r1)"
    by (intro inverse_square_decreasing [OF c]) auto
  with r show "calculateForceMagnitude_Gravity G m1 m2 r2 < calculateForceMagnitude_Gravity G m1 m2 r1"
    by (simp add: calculateForceMagnitude_Gravity_def)
next
  fix r :: real
  show "calculateGravitationalForce m1 m2 r = calculateForceMagnitude_Gravity GRAVITATIONAL_CONSTANT m1 m2 r"
    by (simp add: calculateGravitationalForce_def calculateForceMagnitude_Gravity_def)
qed

text \<open>
  Claim C6. The orbital velocity is 0 for every distance that is not positive, and
  \<open>sqrt (G * M / r)\<close> for every positive distance \<open>r\<close> and mass \<open>M\<close> (not negative); the
  guard on the distance is all the function needs: with division and square root made
  partial it still returns a number on every input, zero where the guard applies.
\<close>

theorem orbital_velocity_guard:
  assumes "0 \<le> M"
  shows "(\<forall>r. r \<le> 0 \<longrightarrow> calculateOrbitalVelocity M r = 0)
       \<and> (\<forall>r. 0 < r \<longrightarrow> calculateOrbitalVelocity M r = sqrt (GRAVITATIONAL_CONSTANT * M / r))
       \<and> (\<forall>r. calculateOrbitalVelocity_checked M r = Some (calculateOrbitalVelocity M r))"
proof (intro conjI allI impI)
  fix r :: real assume "r \<le> 0"
  then show "calculateOrbitalVelocity M r = 0"
    by (simp add: calculateOrbitalVelocity_def)
next
  fix r :: real assume "0 < r"
  then show "calculateOrbitalVelocity M r = sqrt (GRAVITATIONAL_CONSTANT * M / r)"
    by (simp add: calculateOrbitalVelocity_def)
next
  fix r :: real
  show "calculateOrbitalVelocity_checked M r = Some (calculateOrbitalVelocity M r)"
  proof (cases "r \<le> 0")
    case True
    then show ?thesis
      by (simp add: calculateOrbitalVelocity_def calculateOrbitalVelocity_checked_def)
  next
    case False
    then have "0 \<le> GRAVITATIONAL_CONSTANT * M / r"
      using assms by (simp add: GRAVITATIONAL_CONSTANT_def)
    with False show ?thesis
      by (simp add: calculateOrbitalVelocity_def calculateOrbitalVelocity_checked_def
          checked_div_def checked_sqrt_def)
  qed
qed

theorem orbital_velocity_guard_witness:
  "(0::real) \<le> 1
   \<and> calculateOrbitalVelocity 1 0 = 0
   \<and> calculateOrbitalVelocity 1 (- 5) = 0
   \<and> calculateOrbitalVelocity 1 150 = 10
   \<and> calculateOrbitalVelocity_checked 1 0 = Some 0"
proof -
  have m: "(0::real) \<le> 1"
    by simp
  have s: "sqrt 100 = 10"
    using real_sqrt_abs [of 10] by simp
  from orbital_velocity_guard [OF m] s show ?thesis
    by (simp add: GRAVITATIONAL_CONSTANT_def)
qed

section \<open>Properties of the formulas on doubles\<close>

subsection \<open>Powers of two and exponents\<close>

lemma pow2_powr: "pow2 k = 2 powr (of_int k)"
  by (simp add: pow2_def powr_int)

lemma pow2_pos [simp]: "0 < pow2 k"
  by (simp add: pow2_powr)

lemma pow2_mono: "k \<le> l \<Longrightarrow> pow2 k \<le> pow2 l"
  by (simp add: pow2_powr)

lemma pow2_add: "pow2 (k + l) = pow2 k * pow2 l"
  by (simp add: pow2_powr powr_add)

lemma floor_log2:
  assumes "pow2 k \<le> x" and "x < pow2 (k + 1)"
  shows "\<lfloor>log 2 x\<rfloor> = k"
proof -
  have pos: "0 < x"
    using assms(1) pow2_pos [of k] by linarith
  have "of_int k \<le> log 2 x"
    using assms(1) pos by (simp add: le_log_iff pow2_powr)
  moreover have "log 2 x < of_int (k + 1)"
    using assms(2) pos by (simp add: log_less_iff pow2_powr)
  ultimately show ?thesis
    by (simp add: floor_eq_iff)
qed

lemma log2_half: "0 < x \<Longrightarrow> log 2 (x / 2) = log 2 x - 1"
  by (simp add: log_divide)

lemma log2_double: "0 < x \<Longrightarrow> log 2 (2 * x) = log 2 x + 1"
  by (simp add: log_mult)

lemma binade_up_log: "1 \<le> x \<Longrightarrow> binade_up x k = k + \<lfloor>log 2 x\<rfloor>"
proof (induction x k rule: binade_up.induct)
  case (1 x k)
  show ?case
  proof (cases "2 \<le> x")
    case True
    then have "binade_up x k = binade_up (x / 2) (k + 1)"
      by (subst binade_up.simps) simp
    also have "\<dots> = k + 1 + \<lfloor>log 2 (x / 2)\<rfloor>"
      using True by (intro "1.IH") simp_all
    also have "\<dots> = k + \<lfloor>log 2 x\<rfloor>"
      using True by (simp add: log2_half)
    finally show ?thesis .
  next
    case False
    with "1.prems" have "pow2 0 \<le> x" "x < pow2 (0 + 1)"
      by (simp_all add: pow2_def)
    then have "\<lfloor>log 2 x\<rfloor> = 0"
      by (rule floor_log2)
    with False show ?thesis
      by (subst binade_up.simps) simp
  qed
qed

lemma binade_down_log:
  "0 < x \<Longrightarrow> x < 2 \<Longrightarrow> - 1022 \<le> k \<Longrightarrow> binade_down x k = max (k + \<lfloor>log 2 x\<rfloor>) (- 1022)"
proof (induction x k rule: binade_down.induct)
  case (1 x k)
  show ?case
  proof (cases "x < 1 \<and> - 1022 < k")
    case True
    then have "binade_down x k = binade_down (2 * x) (k - 1)"
      by (subst binade_down.simps) simp
    also have "\<dots> = max (k - 1 + \<lfloor>log 2 (2 * x)\<rfloor>) (- 1022)"
      using True "1.prems" by (intro "1.IH") simp_all
    also have "\<dots> = max (k + \<lfloor>log 2 x\<rfloor>) (- 1022)"
      using "1.prems" by (simp add: log2_double)
    finally show ?thesis .
  next
    case False
    show ?thesis
    proof (cases "x < 1")
      case True
      with False "1.prems" have k: "k = - 1022"
        by simp
      have "log 2 x < 0"
        using True "1.prems" by simp
      then have "\<lfloor>log 2 x\<rfloor> < 0"
        by linarith
      with k False True show ?thesis
        by (subst binade_down.simps) simp
    next
      case ge: False
      with "1.prems" have "pow2 0 \<le> x" "x < pow2 (0 + 1)"
        by (simp_all add: pow2_def)
      then have "\<lfloor>log 2 x\<rfloor> = 0"
        by (rule floor_log2)
      with ge "1.prems" show ?thesis
        by (subst binade_down.simps) simp
    qed
  qed
qed

lemma binade_log: "0 < x \<Longrightarrow> binade x = max \<lfloor>log 2 x\<rfloor> (- 1022)"
proof (cases "1 \<le> x")
  case True
  then have "0 \<le> log 2 x"
    by simp
  then have "- 1022 \<le> \<lfloor>log 2 x\<rfloor>"
    by linarith
  then have "max \<lfloor>log 2 x\<rfloor> (- 1022) = \<lfloor>log 2 x\<rfloor>"
    by (rule max_absorb1)
  with True show ?thesis
    by (simp only: binade_def binade_up_log if_True)
next
  case False
  assume "0 < x"
  with False show ?thesis
    by (simp add: binade_def binade_down_log)
qed

lemma binade_eval:
  assumes "pow2 k \<le> x" and "x < pow2 (k + 1)"
  shows "binade x = max k (- 1022)"
proof -
  have "0 < x"
    using assms(1) pow2_pos [of k] by linarith
  then show ?thesis
    by (simp only: binade_log floor_log2 [OF assms])
qed

lemma binade_ge: "- 1022 \<le> binade x"
proof (cases "0 < x")
  case True
  then show ?thesis
    by (simp add: binade_log)
next
  case False
  then have "binade x = binade_down x 0"
    by (simp add: binade_def)
  also have "- 1022 \<le> binade_down x 0"
  proof -
    have "- 1022 \<le> k \<Longrightarrow> - 1022 \<le> binade_down y k" for y k
    proof (induction y k rule: binade_down.induct)
      case (1 y k)
      show ?case
      proof (cases "y < 1 \<and> - 1022 < k")
        case True
        then have "- 1022 \<le> binade_down (2 * y) (k - 1)"
          by (intro "1.IH") simp_all
        moreover have "binade_down y k = binade_down (2 * y) (k - 1)"
          using True by (subst binade_down.simps) simp
        ultimately show ?thesis
          by simp
      next
        case False
        then have "binade_down y k = k"
          by (subst binade_down.simps) auto
        with "1.prems" show ?thesis
          by simp
      qed
    qed
    then show ?thesis
      by simp
  qed
  finally show ?thesis .
qed

lemma binade_upper:
  assumes "0 < x"
  shows "x < pow2 (binade x + 1)"
proof -
  have "log 2 x < of_int (\<lfloor>log 2 x\<rfloor> + 1)"
    by linarith
  also have "\<dots> \<le> of_int (binade x + 1)"
    using assms by (simp add: binade_log)
  finally have "log 2 x < of_int (binade x + 1)" .
  then show ?thesis
    using assms by (simp add: log_less_iff pow2_powr)
qed

lemma binade_lower:
  assumes "0 < x" and "- 1022 < binade x"
  shows "pow2 (binade x) \<le> x"
proof -
  have "binade x = \<lfloor>log 2 x\<rfloor>"
    using assms by (simp add: binade_log max_def split: if_splits)
  then have "of_int (binade x) \<le> log 2 x"
    by simp
  then show ?thesis
    using assms(1) by (simp add: le_log_iff pow2_powr)
qed

lemma binade_mono:
  assumes "0 < x" and "x \<le> y"
  shows "binade x \<le> binade y"
proof -
  have "log 2 x \<le> log 2 y"
    using assms by simp
  then have "\<lfloor>log 2 x\<rfloor> \<le> \<lfloor>log 2 y\<rfloor>"
    by (rule floor_mono)
  then show ?thesis
    using assms by (simp add: binade_log)
qed

lemma round_even_bounds: "\<lfloor>y\<rfloor> \<le> round_even y \<and> round_even y \<le> \<lfloor>y\<rfloor> + 1"
  by (simp add: round_even_def Let_def)

lemma round_even_of_int [simp]: "round_even (of_int n) = n"
  by (simp add: round_even_def)

lemma round_even_zero [simp]: "round_even 0 = 0"
  using round_even_of_int [of 0] by simp

lemma round_even_mono:
  assumes "y \<le> z"
  shows "round_even y \<le> round_even z"
proof (cases "\<lfloor>y\<rfloor> = \<lfloor>z\<rfloor>")
  case True
  with assms have "y - of_int \<lfloor>z\<rfloor> \<le> z - of_int \<lfloor>z\<rfloor>"
    by simp
  with True show ?thesis
    by (auto simp: round_even_def Let_def)
next
  case False
  with assms have "\<lfloor>y\<rfloor> < \<lfloor>z\<rfloor>"
    using floor_mono [of y z] by simp
  with round_even_bounds [of y] round_even_bounds [of z] show ?thesis
    by linarith
qed

lemma quantum_pos [simp]: "0 < quantum x"
  by (simp add: quantum_def)

lemma quantum_nonneg [simp]: "0 \<le> quantum x"
  by (rule less_imp_le) simp

lemma pow2_split: "pow2 (k + 1) = 2 ^ 53 * pow2 (k - 52)" "pow2 k = 2 ^ 52 * pow2 (k - 52)"
proof -
  have "pow2 (k + 1) = pow2 (53 + (k - 52))" "pow2 k = pow2 (52 + (k - 52))"
    by (simp_all add: add.commute)
  moreover have "pow2 53 = 2 ^ 53" "pow2 52 = 2 ^ 52"
    by (simp_all add: pow2_def)
  ultimately show "pow2 (k + 1) = 2 ^ 53 * pow2 (k - 52)" "pow2 k = 2 ^ 52 * pow2 (k - 52)"
    by (simp_all only: pow2_add)
qed

lemma fl_pos_eq: "0 < x \<Longrightarrow> fl x = of_int (round_even (x / quantum x)) * quantum x"
  by (simp add: fl_def)

lemma fl_nonneg:
  assumes "0 \<le> x"
  shows "0 \<le> fl x"
proof (cases "x = 0")
  case True
  then show ?thesis
    by (simp add: fl_def)
next
  case False
  with assms have pos: "0 < x"
    by simp
  then have "0 \<le> x / quantum x"
    by (intro divide_nonneg_pos) simp_all
  then have "round_even (of_int 0) \<le> round_even (x / quantum x)"
    by (intro round_even_mono) simp
  then show ?thesis
    using pos by (simp add: fl_pos_eq)
qed

lemma fl_upper:
  assumes "0 < x"
  shows "fl x \<le> pow2 (binade x + 1)"
proof -
  have q: "pow2 (binade x + 1) = of_int (2 ^ 53) * quantum x"
    by (simp add: quantum_def pow2_split(1) [of "binade x"])
  have "x / quantum x \<le> of_int (2 ^ 53)"
    using binade_upper [OF assms] by (simp add: q pos_divide_le_eq)
  then have "round_even (x / quantum x) \<le> round_even (of_int (2 ^ 53))"
    by (rule round_even_mono)
  then have "of_int (round_even (x / quantum x)) * quantum x \<le> of_int (2 ^ 53) * quantum x"
    by (simp del: of_int_power of_int_numeral)
  then show ?thesis
    using assms by (simp only: fl_pos_eq q)
qed

lemma fl_lower:
  assumes "0 < x" and "- 1022 < binade x"
  shows "pow2 (binade x) \<le> fl x"
proof -
  have q: "pow2 (binade x) = of_int (2 ^ 52) * quantum x"
    by (simp add: quantum_def pow2_split(2) [of "binade x"])
  have "of_int (2 ^ 52) \<le> x / quantum x"
    using binade_lower [OF assms] by (simp add: q pos_le_divide_eq)
  then have "round_even (of_int (2 ^ 52)) \<le> round_even (x / quantum x)"
    by (rule round_even_mono)
  then have "of_int (2 ^ 52) * quantum x \<le> of_int (round_even (x / quantum x)) * quantum x"
    by (simp del: of_int_power of_int_numeral)
  then show ?thesis
    using assms by (simp only: fl_pos_eq q)
qed

lemma fl_mono:
  assumes "0 \<le> x" and "x \<le> y"
  shows "fl x \<le> fl y"
proof (cases "x = 0")
  case True
  with assms fl_nonneg [of y] show ?thesis
    by (simp add: fl_def)
next
  case False
  with assms have x: "0 < x" and y: "0 < y"
    by simp_all
  show ?thesis
  proof (cases "binade x = binade y")
    case True
    then have q: "quantum x = quantum y"
      by (simp add: quantum_def)
    have "x / quantum y \<le> y / quantum y"
      using assms(2) by (intro divide_right_mono) simp_all
    then have "round_even (x / quantum y) \<le> round_even (y / quantum y)"
      by (rule round_even_mono)
    then show ?thesis
      using x y by (simp add: fl_pos_eq q)
  next
    case False
    with binade_mono [OF x assms(2)] have lt: "binade x < binade y"
      by simp
    with binade_ge [of x] have "- 1022 < binade y"
      by linarith
    from fl_lower [OF y this] have "pow2 (binade y) \<le> fl y" .
    moreover have "pow2 (binade x + 1) \<le> pow2 (binade y)"
      using lt by (intro pow2_mono) simp
    ultimately show ?thesis
      using fl_upper [OF x] by linarith
  qed
qed

lemma round_double_nonneg:
  assumes "0 \<le> x"
  shows "round_double x = (if pow2 1024 \<le> fl x then Infinity else Num (fl x))"
proof -
  have "- pow2 1024 < 0"
    by simp
  with fl_nonneg [OF assms] have "\<not> fl x \<le> - pow2 1024"
    by linarith
  then show ?thesis
    by (simp add: round_double_def Let_def)
qed

lemma round_double_mono:
  assumes "0 \<le> x" and "x \<le> y"
  shows "js_le (round_double x) (round_double y)"
proof -
  have y: "0 \<le> y"
    using assms by simp
  from fl_mono [OF assms] show ?thesis
    by (simp add: round_double_nonneg [OF assms(1)] round_double_nonneg [OF y])
qed

lemma round_double_ge_zero:
  assumes "0 \<le> x"
  shows "js_le (Num 0) (round_double x)"
  using fl_nonneg [OF assms] by (simp add: round_double_nonneg [OF assms])

lemma js_abs_round_double:
  assumes "0 \<le> x"
  shows "js_abs (round_double x) = round_double x"
  using fl_nonneg [OF assms] by (simp add: round_double_nonneg [OF assms])

lemma fl_eval:
  assumes "pow2 k \<le> x" and "x < pow2 (k + 1)" and "- 1022 \<le> k"
  shows "fl x = of_int (round_even (x / pow2 (k - 52))) * pow2 (k - 52)"
proof -
  have pos: "0 < x"
    using assms(1) pow2_pos [of k] by linarith
  have "binade x = k"
    using binade_eval [OF assms(1,2)] assms(3) by simp
  then show ?thesis
    using pos by (simp add: fl_pos_eq quantum_def)
qed

lemma round_double_eval:
  assumes "pow2 k \<le> x" and "x < pow2 (k + 1)" and "- 1022 \<le> k"
    and "of_int (round_even (x / pow2 (k - 52))) * pow2 (k - 52) = y"
    and "y < pow2 1024"
  shows "round_double x = Num y"
proof -
  have pos: "0 \<le> x"
    using assms(1) pow2_pos [of k] by linarith
  have "fl x = y"
    using fl_eval [OF assms(1,2,3)] assms(4) by simp
  then show ?thesis
    using assms(5) by (simp add: round_double_nonneg [OF pos])
qed

lemma pow2_less_cancel:
  assumes "pow2 k < pow2 l"
  shows "k < l"
proof (rule ccontr)
  assume "\<not> k < l"
  then have "pow2 l \<le> pow2 k"
    by (intro pow2_mono) simp
  with assms show False
    by simp
qed

lemma fl_of_int:
  assumes "0 < n" and "n < 2 ^ 53"
  shows "fl (of_int n) = of_int n"
proof -
  let ?x = "of_int n :: real"
  have pos: "0 < ?x"
    using assms(1) by simp
  have "?x < of_int (2 ^ 53)"
    using assms(2) by (simp only: of_int_less_iff)
  then have "?x < pow2 53"
    by (simp add: pow2_def)
  have b: "binade ?x \<le> 52"
  proof (cases "- 1022 < binade ?x")
    case True
    from binade_lower [OF pos this] \<open>?x < pow2 53\<close> have "pow2 (binade ?x) < pow2 53"
      by linarith
    then have "binade ?x < 53"
      by (rule pow2_less_cancel)
    then show ?thesis
      by simp
  next
    case False
    then show ?thesis
      by simp
  qed
  define j where "j = nat (52 - binade ?x)"
  have q: "quantum ?x = 1 / 2 ^ j"
  proof (cases "binade ?x = 52")
    case True
    then show ?thesis
      by (simp add: quantum_def pow2_def j_def)
  next
    case False
    with b have "binade ?x - 52 < 0"
      by simp
    then show ?thesis
      by (simp add: quantum_def pow2_def j_def)
  qed
  have "?x / quantum ?x = of_int (n * 2 ^ j)"
    by (simp add: q)
  then have "round_even (?x / quantum ?x) = n * 2 ^ j"
    by (simp only: round_even_of_int)
  then show ?thesis
    using pos by (simp add: fl_pos_eq q)
qed

lemma round_double_numeral:
  assumes "(numeral w :: int) < 2 ^ 53"
  shows "round_double (numeral w) = Num (numeral w)"
proof -
  have "fl (of_int (numeral w)) = of_int (numeral w)"
    using assms by (intro fl_of_int) simp_all
  then have f: "fl (numeral w) = numeral w"
    by simp
  have "(of_int (numeral w) :: real) < of_int (2 ^ 53)"
    using assms by (simp only: of_int_less_iff)
  then have "(numeral w :: real) < 2 ^ 53"
    by simp
  also have "\<dots> < pow2 1024"
    by (simp add: pow2_def)
  finally have "\<not> pow2 1024 \<le> (numeral w :: real)"
    by simp
  then show ?thesis
    by (simp add: round_double_nonneg f)
qed

lemma round_double_not_NaN: "0 \<le> x \<Longrightarrow> round_double x \<noteq> NaN"
  by (simp add: round_double_nonneg)

lemma js_le_Infinity: "a \<noteq> NaN \<Longrightarrow> js_le a Infinity"
  by (cases a) simp_all

lemma round_double_overflow:
  assumes "pow2 1024 \<le> x"
  shows "round_double x = Infinity"
proof -
  have pos: "0 < x"
    using assms pow2_pos [of 1024] by linarith
  have "binade (pow2 1024) = max 1024 (- 1022)"
    by (rule binade_eval) (simp_all add: pow2_powr)
  with binade_mono [OF pow2_pos assms] have b: "1024 \<le> binade x"
    by simp
  then have "pow2 1024 \<le> pow2 (binade x)"
    by (rule pow2_mono)
  also have "\<dots> \<le> fl x"
    using b by (intro fl_lower [OF pos]) simp
  finally show ?thesis
    using pos by (simp add: round_double_nonneg)
qed

lemma js_div_rounded:
  assumes "0 < c" and "0 \<le> x"
  shows "js_div (Num c) (round_double x) =
           (if pow2 1024 \<le> fl x then Num 0
            else if fl x = 0 then Infinity
            else round_double (c / fl x))"
  using assms by (simp add: round_double_nonneg)

lemma js_div_rounded_ge_zero:
  assumes "0 < c" and "0 \<le> x"
  shows "js_le (Num 0) (js_div (Num c) (round_double x))"
proof -
  have "0 \<le> c / fl x"
    using assms fl_nonneg [of x] by simp
  from round_double_ge_zero [OF this] show ?thesis
    by (simp add: js_div_rounded [OF assms])
qed

lemma js_div_rounded_antitone:
  assumes "0 < c" and "0 \<le> x" and "x \<le> y"
  shows "js_le (js_div (Num c) (round_double y)) (js_div (Num c) (round_double x))"
proof -
  have y: "0 \<le> y"
    using assms by simp
  have le: "fl x \<le> fl y" and fx: "0 \<le> fl x" and fy: "0 \<le> fl y"
    using fl_mono [OF assms(2,3)] fl_nonneg [OF assms(2)] fl_nonneg [OF y] by simp_all
  show ?thesis
  proof (cases "pow2 1024 \<le> fl y")
    case True
    then have "js_div (Num c) (round_double y) = Num 0"
      by (simp add: js_div_rounded [OF assms(1) y])
    with js_div_rounded_ge_zero [OF assms(1,2)] show ?thesis
      by simp
  next
    case False
    with le have small: "\<not> pow2 1024 \<le> fl x"
      by linarith
    show ?thesis
    proof (cases "fl x = 0")
      case True
      have "0 \<le> c / fl y"
        using assms(1) fy by simp
      then have "round_double (c / fl y) \<noteq> NaN"
        by (rule round_double_not_NaN)
      then have "js_div (Num c) (round_double y) \<noteq> NaN"
        using False by (simp add: js_div_rounded [OF assms(1) y])
      then have "js_le (js_div (Num c) (round_double y)) Infinity"
        by (rule js_le_Infinity)
      with True small show ?thesis
        by (simp add: js_div_rounded [OF assms(1,2)])
    next
      case nz: False
      with fx le have px: "0 < fl x" and py: "0 < fl y"
        by simp_all
      then have "c / fl y \<le> c / fl x"
        using assms(1) le by (simp add: frac_le)
      moreover have "0 \<le> c / fl y"
        using assms(1) py by simp
      ultimately have "js_le (round_double (c / fl y)) (round_double (c / fl x))"
        by (intro round_double_mono)
      with False small px py show ?thesis
        by (simp add: js_div_rounded [OF assms(1,2)] js_div_rounded [OF assms(1) y])
    qed
  qed
qed

subsection \<open>The impulse\<close>

lemma impulse_eval:
  assumes "round_double (m * v) = Num y"
  shows "calculateImpulse_binary64 (Num m) (Num v) = Num \<bar>y\<bar>"
  using assms by (simp add: calculateImpulse_binary64_def)

text \<open>
  Claim C7, as amended. On the code's doubles, for every mass \<open>m > 0\<close> and velocity
  \<open>v > 0\<close> the impulse function returns exactly the double product \<open>m * v\<close>, which is not
  negative, and the result is monotonically non-decreasing in each of the two arguments.
  It is not strictly increasing: rounding takes neighbouring products to one double.
\<close>

theorem impulse_binary64_monotone:
  assumes "0 < m" and "0 < v"
  shows "calculateImpulse_binary64 (Num m) (Num v) = js_mul (Num m) (Num v)
       \<and> js_le (Num 0) (calculateImpulse_binary64 (Num m) (Num v))
       \<and> (\<forall>m'. m \<le> m' \<longrightarrow>
             js_le (calculateImpulse_binary64 (Num m) (Num v))
                   (calculateImpulse_binary64 (Num m') (Num v)))
       \<and> (\<forall>v'. v \<le> v' \<longrightarrow>
             js_le (calculateImpulse_binary64 (Num m) (Num v))
                   (calculateImpulse_binary64 (Num m) (Num v')))"
proof -
  have imp: "calculateImpulse_binary64 (Num a) (Num b) = round_double (a * b)"
    if "0 < a" "0 < b" for a b
  proof -
    have "0 \<le> a * b"
      using that by simp
    then show ?thesis
      by (simp add: calculateImpulse_binary64_def js_abs_round_double)
  qed
  have mv: "0 \<le> m * v"
    using assms by simp
  show ?thesis
  proof (intro conjI allI impI)
    show "calculateImpulse_binary64 (Num m) (Num v) = js_mul (Num m) (Num v)"
      using assms by (simp add: imp)
    show "js_le (Num 0) (calculateImpulse_binary64 (Num m) (Num v))"
      using assms by (simp add: imp round_double_ge_zero [OF mv])
  next
    fix m' assume le: "m \<le> m'"
    then have "m * v \<le> m' * v" "0 < m'"
      using assms by (simp_all add: mult_right_mono)
    with round_double_mono [OF mv, of "m' * v"] assms
    show "js_le (calculateImpulse_binary64 (Num m) (Num v))
                (calculateImpulse_binary64 (Num m') (Num v))"
      by (simp add: imp)
  next
    fix v' assume le: "v \<le> v'"
    then have "m * v \<le> m * v'" "0 < v'"
      using assms by (simp_all add: mult_left_mono)
    with round_double_mono [OF mv, of "m * v'"] assms
    show "js_le (calculateImpulse_binary64 (Num m) (Num v))
                (calculateImpulse_binary64 (Num m) (Num v'))"
      by (simp add: imp)
  qed
qed

theorem impulse_binary64_monotone_witness:
  "(0::real) < 5 \<and> (0::real) < 1 / 8 \<and> (5::real) \<le> 10 \<and> (1 / 8 :: real) \<le> 1 / 4
   \<and> calculateImpulse_binary64 (Num 5) (Num (1 / 8)) = js_mul (Num 5) (Num (1 / 8))
   \<and> js_le (Num 0) (calculateImpulse_binary64 (Num 5) (Num (1 / 8)))
   \<and> js_le (calculateImpulse_binary64 (Num 5) (Num (1 / 8)))
            (calculateImpulse_binary64 (Num 10) (Num (1 / 8)))
   \<and> js_le (calculateImpulse_binary64 (Num 5) (Num (1 / 8)))
            (calculateImpulse_binary64 (Num 5) (Num (1 / 4)))"
proof -
  have m: "(0::real) < 5" and v: "(0::real) < 1 / 8"
    and mass: "(5::real) \<le> 10" and speed: "(1 / 8 :: real) \<le> 1 / 4"
    by simp_all
  note t = impulse_binary64_monotone [OF m v]
  note product = t [THEN conjunct1]
    and nonneg = t [THEN conjunct2, THEN conjunct1]
    and in_mass = t [THEN conjunct2, THEN conjunct2, THEN conjunct1, rule_format, OF mass]
    and in_speed = t [THEN conjunct2, THEN conjunct2, THEN conjunct2, rule_format, OF speed]
  show ?thesis
    by (intro conjI) (rule m v mass speed product nonneg in_mass in_speed)+
qed

text \<open>The doubles 1.5, the next double above it and 0.05, and their products as the code
  rounds them.\<close>

lemma double_three_halves: "round_double (3 / 2) = Num (3 / 2)"
  by (rule round_double_eval [where k = 0]) (simp_all add: pow2_def round_even_def)

lemma double_next_three_halves:
  "round_double (6755399441055745 / 2 ^ 52) = Num (6755399441055745 / 2 ^ 52)"
  by (rule round_double_eval [where k = 0]) (simp_all add: pow2_def round_even_def)

lemma double_one_twentieth:
  "round_double (3602879701896397 / 2 ^ 56) = Num (3602879701896397 / 2 ^ 56)"
  by (rule round_double_eval [where k = "- 5"]) (simp_all add: pow2_def round_even_def)

lemma product_three_halves:
  "round_double (3 / 2 * (3602879701896397 / 2 ^ 56)) = Num (5404319552844596 / 2 ^ 56)"
  by (rule round_double_eval [where k = "- 4"]) (simp_all add: pow2_def round_even_def)

lemma product_next_three_halves:
  "round_double (6755399441055745 / 2 ^ 52 * (3602879701896397 / 2 ^ 56)) =
     Num (5404319552844596 / 2 ^ 56)"
  by (rule round_double_eval [where k = "- 4"]) (simp_all add: pow2_def round_even_def)

text \<open>
  Claim C7 as stated fails on the doubles: 1.5 and the next double above it, with the
  velocity 0.05 (the slow swing speed), give the same impulse 0.07500000000000001.
\<close>

theorem impulse_strict_counterexample:
  "is_double (3 / 2) \<and> is_double (6755399441055745 / 2 ^ 52)
   \<and> is_double (3602879701896397 / 2 ^ 56)
   \<and> (0::real) < 3 / 2 \<and> (3 / 2 :: real) < 6755399441055745 / 2 ^ 52
   \<and> (0::real) < 3602879701896397 / 2 ^ 56
   \<and> calculateImpulse_binary64 (Num (3 / 2)) (Num (3602879701896397 / 2 ^ 56)) =
       Num (5404319552844596 / 2 ^ 56)
   \<and> calculateImpulse_binary64 (Num (6755399441055745 / 2 ^ 52))
         (Num (3602879701896397 / 2 ^ 56)) = Num (5404319552844596 / 2 ^ 56)
   \<and> \<not> js_lt (calculateImpulse_binary64 (Num (3 / 2)) (Num (3602879701896397 / 2 ^ 56)))
         (calculateImpulse_binary64 (Num (6755399441055745 / 2 ^ 52))
            (Num (3602879701896397 / 2 ^ 56)))"
proof -
  have a: "calculateImpulse_binary64 (Num (3 / 2)) (Num (3602879701896397 / 2 ^ 56)) =
       Num (5404319552844596 / 2 ^ 56)"
    using impulse_eval [OF product_three_halves] by simp
  have b: "calculateImpulse_binary64 (Num (6755399441055745 / 2 ^ 52))
         (Num (3602879701896397 / 2 ^ 56)) = Num (5404319552844596 / 2 ^ 56)"
    using impulse_eval [OF product_next_three_halves] by simp
  have "\<not> js_lt (calculateImpulse_binary64 (Num (3 / 2)) (Num (3602879701896397 / 2 ^ 56)))
         (calculateImpulse_binary64 (Num (6755399441055745 / 2 ^ 52))
            (Num (3602879701896397 / 2 ^ 56)))"
    by (simp only: a b js_lt.simps)
  moreover have "is_double (3 / 2)" "is_double (6755399441055745 / 2 ^ 52)"
    "is_double (3602879701896397 / 2 ^ 56)"
    unfolding is_double_def
    by (rule double_three_halves double_next_three_halves double_one_twentieth)+
  moreover have "(0::real) < 3 / 2" "(3 / 2 :: real) < 6755399441055745 / 2 ^ 52"
    "(0::real) < 3602879701896397 / 2 ^ 56"
    by simp_all
  ultimately show ?thesis
    using a b by (intro conjI)
qed

subsection \<open>The gravitational force\<close>

text \<open>
  Claim C5, as amended. On the code's doubles, for every \<open>G > 0\<close> and masses \<open>m1, m2 > 0\<close>
  whose product the code computes as a finite double that is not zero, the gravitational
  force is 0 whenever the distance \<open>r\<close> is not positive; for \<open>r > 0\<close> it is the double
  quotient \<open>(G * m1 * m2) / (r * r)\<close>, which is not negative, and it is monotonically
  non-increasing in \<open>r\<close>. It is neither strictly positive nor strictly decreasing: the
  quotient is zero when \<open>r * r\<close> overflows, and rounding takes neighbouring distances to
  one force. The component's \<open>calculateGravitationalForce\<close> is the library's function at
  \<open>G = GRAVITATIONAL_CONSTANT\<close>.
\<close>

theorem gravity_binary64_monotone:
  assumes "0 < G" and "0 < m1" and "0 < m2"
    and "js_mul (js_mul (Num G) (Num m1)) (Num m2) = Num c" and "0 < c"
  shows "(\<forall>r. r \<le> 0 \<longrightarrow>
            calculateForceMagnitude_Gravity_binary64 (Num G) (Num m1) (Num m2) (Num r) = Num 0)
       \<and> (\<forall>r. 0 < r \<longrightarrow>
            calculateForceMagnitude_Gravity_binary64 (Num G) (Num m1) (Num m2) (Num r) =
              js_div (js_mul (js_mul (Num G) (Num m1)) (Num m2)) (js_mul (Num r) (Num r))
            \<and> js_le (Num 0)
                 (calculateForceMagnitude_Gravity_binary64 (Num G) (Num m1) (Num m2) (Num r)))
       \<and> (\<forall>r1 r2. 0 < r1 \<and> r1 \<le> r2 \<longrightarrow>
            js_le (calculateForceMagnitude_Gravity_binary64 (Num G) (Num m1) (Num m2) (Num r2))
                  (calculateForceMagnitude_Gravity_binary64 (Num G) (Num m1) (Num m2) (Num r1)))
       \<and> (\<forall>e m r. calculateGravitationalForce_binary64 e m r =
            calculateForceMagnitude_Gravity_binary64 (Num GRAVITATIONAL_CONSTANT) e m r)"
proof -
  let ?F = "calculateForceMagnitude_Gravity_binary64 (Num G) (Num m1) (Num m2)"
  have F: "?F (Num r) = js_div (Num c) (round_double (r * r))" if "0 < r" for r
    using that assms(4) by (simp add: calculateForceMagnitude_Gravity_binary64_def)
  show ?thesis
  proof (intro conjI allI impI)
    fix r :: real assume "r \<le> 0"
    then show "?F (Num r) = Num 0"
      by (simp add: calculateForceMagnitude_Gravity_binary64_def)
  next
    fix r :: real assume "0 < r"
    then show "?F (Num r) =
        js_div (js_mul (js_mul (Num G) (Num m1)) (Num m2)) (js_mul (Num r) (Num r))"
      by (simp add: calculateForceMagnitude_Gravity_binary64_def)
  next
    fix r :: real assume r: "0 < r"
    have "0 \<le> r * r"
      by simp
    from js_div_rounded_ge_zero [OF assms(5) this] show "js_le (Num 0) (?F (Num r))"
      by (simp add: F [OF r])
  next
    fix r1 r2 :: real assume r: "0 < r1 \<and> r1 \<le> r2"
    then have "0 \<le> r1 * r1" "r1 * r1 \<le> r2 * r2" "0 < r2"
      by (simp_all add: mult_mono)
    with js_div_rounded_antitone [OF assms(5), of "r1 * r1" "r2 * r2"] r
    show "js_le (?F (Num r2)) (?F (Num r1))"
      by (simp add: F)
  next
    fix e m r
    show "calculateGravitationalForce_binary64 e m r =
        calculateForceMagnitude_Gravity_binary64 (Num GRAVITATIONAL_CONSTANT) e m r"
      by (simp add: calculateGravitationalForce_binary64_def
          calculateForceMagnitude_Gravity_binary64_def)
  qed
qed

text \<open>For the component's constant and every pair of its mass multipliers the product is
  such a double.\<close>

lemma component_numerator_finite:
  "\<exists>c. 0 < c \<and> js_mul (js_mul (Num GRAVITATIONAL_CONSTANT) (Num (MASS_MAP_g earthMass)))
      (Num (MASS_MAP_g moonMass)) = Num c"
  by (cases earthMass; cases moonMass) (simp_all add: GRAVITATIONAL_CONSTANT_def round_double_numeral)

text \<open>The force for the masses \<open>earth\<close> and \<open>0.5\<close> at some distances, as the code rounds
  it.\<close>

lemma force_eval:
  assumes "round_double (G * m1) = Num a" and "round_double (a * m2) = Num c"
    and "0 < r" and "round_double (r * r) = Num s" and "s \<noteq> 0"
    and "round_double (c / s) = q"
  shows "calculateForceMagnitude_Gravity_binary64 (Num G) (Num m1) (Num m2) (Num r) = q"
  using assms by (simp add: calculateForceMagnitude_Gravity_binary64_def)

lemma force_eval_overflow:
  assumes "round_double (G * m1) = Num a" and "round_double (a * m2) = Num c"
    and "0 < r" and "round_double (r * r) = Infinity"
  shows "calculateForceMagnitude_Gravity_binary64 (Num G) (Num m1) (Num m2) (Num r) = Num 0"
  using assms by (simp add: calculateForceMagnitude_Gravity_binary64_def)

lemma numerator_earth_half:
  "round_double 15000 = Num 15000" "round_double 7500 = Num 7500"
  by (rule round_double_eval [where k = 13], simp_all add: pow2_def round_even_def)
    (rule round_double_eval [where k = 12], simp_all add: pow2_def round_even_def)

lemma force_at_150:
  "calculateForceMagnitude_Gravity_binary64 (Num 15000) (Num 1) (Num (1 / 2)) (Num 150) =
     Num (6004799503160661 / 2 ^ 54)"
proof (rule force_eval [where a = 15000 and c = 7500 and s = 22500])
  show "round_double (150 * 150) = Num 22500"
    by (rule round_double_eval [where k = 14]) (simp_all add: pow2_def round_even_def)
  show "round_double (7500 / 22500) = Num (6004799503160661 / 2 ^ 54)"
    by (rule round_double_eval [where k = "- 2"]) (simp_all add: pow2_def round_even_def)
qed (simp_all add: numerator_earth_half)

lemma force_at_300:
  "calculateForceMagnitude_Gravity_binary64 (Num 15000) (Num 1) (Num (1 / 2)) (Num 300) =
     Num (6004799503160661 / 2 ^ 56)"
proof (rule force_eval [where a = 15000 and c = 7500 and s = 90000])
  show "round_double (300 * 300) = Num 90000"
    by (rule round_double_eval [where k = 16]) (simp_all add: pow2_def round_even_def)
  show "round_double (7500 / 90000) = Num (6004799503160661 / 2 ^ 56)"
    by (rule round_double_eval [where k = "- 4"]) (simp_all add: pow2_def round_even_def)
qed (simp_all add: numerator_earth_half)

lemma force_at_collision_lower:
  "calculateForceMagnitude_Gravity_binary64 (Num 15000) (Num 1) (Num (1 / 2))
     (Num (253437915743219 / 2 ^ 40)) = Num (5085896307171579 / 2 ^ 55)"
proof (rule force_eval [where a = 15000 and c = 7500 and s = "7302193937024069 / 2 ^ 37"])
  show "round_double (253437915743219 / 2 ^ 40 * (253437915743219 / 2 ^ 40)) =
      Num (7302193937024069 / 2 ^ 37)"
    by (rule round_double_eval [where k = 15]) (simp_all add: pow2_def round_even_def)
  show "round_double (7500 / (7302193937024069 / 2 ^ 37)) = Num (5085896307171579 / 2 ^ 55)"
    by (rule round_double_eval [where k = "- 3"]) (simp_all add: pow2_def round_even_def)
qed (simp_all add: numerator_earth_half)

lemma force_at_collision_upper:
  "calculateForceMagnitude_Gravity_binary64 (Num 15000) (Num 1) (Num (1 / 2))
     (Num (8110013303783009 / 2 ^ 45)) = Num (5085896307171579 / 2 ^ 55)"
proof (rule force_eval [where a = 15000 and c = 7500 and s = "3651096968512035 / 2 ^ 36"])
  show "round_double (8110013303783009 / 2 ^ 45 * (8110013303783009 / 2 ^ 45)) =
      Num (3651096968512035 / 2 ^ 36)"
    by (rule round_double_eval [where k = 15]) (simp_all add: pow2_def round_even_def)
  show "round_double (7500 / (3651096968512035 / 2 ^ 36)) = Num (5085896307171579 / 2 ^ 55)"
    by (rule round_double_eval [where k = "- 3"]) (simp_all add: pow2_def round_even_def)
qed (simp_all add: numerator_earth_half)

lemma force_at_overflow:
  "calculateForceMagnitude_Gravity_binary64 (Num 15000) (Num 1) (Num (1 / 2)) (Num (2 ^ 600)) = Num 0"
proof (rule force_eval_overflow [where a = 15000 and c = 7500])
  have "pow2 1024 \<le> (2 ^ 600 * 2 ^ 600 :: real)"
    by (simp add: pow2_def)
  then show "round_double (2 ^ 600 * 2 ^ 600) = Infinity"
    by (rule round_double_overflow)
qed (simp_all add: numerator_earth_half)

lemma force_at_nan:
  "calculateForceMagnitude_Gravity_binary64 (Num (2 ^ 600)) (Num (2 ^ 600)) (Num 1)
     (Num (2 ^ 600)) = NaN"
proof -
  have "pow2 1024 \<le> (2 ^ 600 * 2 ^ 600 :: real)"
    by (simp add: pow2_def)
  then have "round_double (2 ^ 600 * 2 ^ 600) = Infinity"
    by (rule round_double_overflow)
  moreover have "\<not> js_le (Num (2 ^ 600)) (Num 0)"
    by simp
  ultimately show ?thesis
    by (simp only: calculateForceMagnitude_Gravity_binary64_def js_mul.simps if_False) simp
qed

lemma doubles_of_collision:
  "is_double (253437915743219 / 2 ^ 40)" "is_double (8110013303783009 / 2 ^ 45)"
  "is_double (2 ^ 600)" "is_double 15000" "is_double 1" "is_double (1 / 2)"
proof -
  show "is_double (253437915743219 / 2 ^ 40)"
    unfolding is_double_def
    by (rule round_double_eval [where k = 7]) (simp_all add: pow2_def round_even_def)
  show "is_double (8110013303783009 / 2 ^ 45)"
    unfolding is_double_def
    by (rule round_double_eval [where k = 7]) (simp_all add: pow2_def round_even_def)
  show "is_double (2 ^ 600)"
    unfolding is_double_def
    by (rule round_double_eval [where k = 600]) (simp_all add: pow2_def round_even_def)
  show "is_double 15000"
    unfolding is_double_def
    by (rule round_double_eval [where k = 13]) (simp_all add: pow2_def round_even_def)
  show "is_double 1"
    unfolding is_double_def
    by (rule round_double_eval [where k = 0]) (simp_all add: pow2_def round_even_def)
  show "is_double (1 / 2)"
    unfolding is_double_def
    by (rule round_double_eval [where k = "- 1"]) (simp_all add: pow2_def round_even_def)
qed

theorem gravity_binary64_monotone_witness:
  "(0::real) < 15000 \<and> (0::real) < 1 \<and> (0::real) < 1 / 2
   \<and> js_mul (js_mul (Num 15000) (Num 1)) (Num (1 / 2)) = Num 7500 \<and> (0::real) < 7500
   \<and> calculateForceMagnitude_Gravity_binary64 (Num 15000) (Num 1) (Num (1 / 2)) (Num 0) = Num 0
   \<and> calculateForceMagnitude_Gravity_binary64 (Num 15000) (Num 1) (Num (1 / 2)) (Num 150) =
       Num (6004799503160661 / 2 ^ 54)
   \<and> calculateForceMagnitude_Gravity_binary64 (Num 15000) (Num 1) (Num (1 / 2)) (Num 300) =
       Num (6004799503160661 / 2 ^ 56)
   \<and> js_le (Num 0)
        (calculateForceMagnitude_Gravity_binary64 (Num 15000) (Num 1) (Num (1 / 2)) (Num 150))
   \<and> js_le (calculateForceMagnitude_Gravity_binary64 (Num 15000) (Num 1) (Num (1 / 2)) (Num 300))
        (calculateForceMagnitude_Gravity_binary64 (Num 15000) (Num 1) (Num (1 / 2)) (Num 150))"
proof -
  have g: "(0::real) < 15000" and m1: "(0::real) < 1" and m2: "(0::real) < 1 / 2"
    and c: "(0::real) < 7500" and zero: "(0::real) \<le> 0" and pos: "(0::real) < 150"
    and order: "(0::real) < 150 \<and> (150::real) \<le> 300"
    by simp_all
  have n: "js_mul (js_mul (Num 15000) (Num 1)) (Num (1 / 2)) = Num 7500"
    by (simp add: numerator_earth_half)
  note t = gravity_binary64_monotone [OF g m1 m2 n c]
  note at_zero = t [THEN conjunct1, rule_format, OF zero]
    and nonneg = t [THEN conjunct2, THEN conjunct1, rule_format, OF pos, THEN conjunct2]
    and mono = t [THEN conjunct2, THEN conjunct2, THEN conjunct1, rule_format, OF order]
  show ?thesis
    by (intro conjI)
      (rule g m1 m2 c n at_zero nonneg mono force_at_150 force_at_300)+
qed

text \<open>
  Claim C5 as stated fails on the doubles: at the distance 230.50044159683148 and at the
  next double above it, both within the range of the drag, the force for the masses
  \<open>earth\<close> and \<open>0.5\<close> is the same double, and at the distance \<open>2 ^ 600\<close> it is zero. When
  the product of \<open>G\<close> and the masses overflows the result can be NaN, which is why the
  amended claim asks for a finite product.
\<close>

theorem gravity_strict_counterexample:
  "is_double 15000 \<and> is_double 1 \<and> is_double (1 / 2)
   \<and> is_double (253437915743219 / 2 ^ 40) \<and> is_double (8110013303783009 / 2 ^ 45)
   \<and> (150::real) \<le> 253437915743219 / 2 ^ 40
   \<and> (253437915743219 / 2 ^ 40 :: real) < 8110013303783009 / 2 ^ 45
   \<and> (8110013303783009 / 2 ^ 45 :: real) \<le> 400
   \<and> calculateForceMagnitude_Gravity_binary64 (Num 15000) (Num 1) (Num (1 / 2))
        (Num (253437915743219 / 2 ^ 40)) = Num (5085896307171579 / 2 ^ 55)
   \<and> calculateForceMagnitude_Gravity_binary64 (Num 15000) (Num 1) (Num (1 / 2))
        (Num (8110013303783009 / 2 ^ 45)) = Num (5085896307171579 / 2 ^ 55)
   \<and> \<not> js_lt (calculateForceMagnitude_Gravity_binary64 (Num 15000) (Num 1) (Num (1 / 2))
                (Num (8110013303783009 / 2 ^ 45)))
              (calculateForceMagnitude_Gravity_binary64 (Num 15000) (Num 1) (Num (1 / 2))
                (Num (253437915743219 / 2 ^ 40)))
   \<and> is_double (2 ^ 600) \<and> (0::real) < 2 ^ 600
   \<and> calculateForceMagnitude_Gravity_binary64 (Num 15000) (Num 1) (Num (1 / 2))
        (Num (2 ^ 600)) = Num 0
   \<and> \<not> js_lt (Num 0)
        (calculateForceMagnitude_Gravity_binary64 (Num 15000) (Num 1) (Num (1 / 2))
          (Num (2 ^ 600)))
   \<and> calculateForceMagnitude_Gravity_binary64 (Num (2 ^ 600)) (Num (2 ^ 600)) (Num 1)
        (Num (2 ^ 600)) = NaN"
proof -
  have "\<not> js_lt (calculateForceMagnitude_Gravity_binary64 (Num 15000) (Num 1) (Num (1 / 2))
                (Num (8110013303783009 / 2 ^ 45)))
              (calculateForceMagnitude_Gravity_binary64 (Num 15000) (Num 1) (Num (1 / 2))
                (Num (253437915743219 / 2 ^ 40)))"
    by (simp only: force_at_collision_lower force_at_collision_upper js_lt.simps)
  moreover have "\<not> js_lt (Num 0)
        (calculateForceMagnitude_Gravity_binary64 (Num 15000) (Num 1) (Num (1 / 2))
          (Num (2 ^ 600)))"
    by (simp only: force_at_overflow js_lt.simps)
  moreover have "(150::real) \<le> 253437915743219 / 2 ^ 40"
    "(253437915743219 / 2 ^ 40 :: real) < 8110013303783009 / 2 ^ 45"
    "(8110013303783009 / 2 ^ 45 :: real) \<le> 400" "(0::real) < 2 ^ 600"
    by simp_all
  ultimately show ?thesis
    using doubles_of_collision force_at_collision_lower force_at_collision_upper
      force_at_overflow force_at_nan
    by (intro conjI)
qed

section \<open>Properties of the hammer scenario\<close>

text \<open>
  Claim C10. The phase \<open>Resetting\<close> is unreachable: from the initial state, no click
  (Hit sets \<open>Swinging\<close>, Reset sets \<open>Idle\<close>) and no frame ever assigns it, so the
  \<open>Resetting\<close> branch of \<open>update\<close> is never run in a reachable state.
\<close>

theorem resetting_unreachable:
  assumes "reachable phys"
  shows "state phys \<noteq> Resetting"
  using assms
proof (induction rule: reachable.induct)
  case reachable_initial
  show ?case by (simp add: physicsRef_initial_def)
next
  case (reachable_update phys massOption speedOption)
  then show ?case
    by (cases "state phys") (simp_all add: update_def Let_def)
next
  case (reachable_handleHit phys)
  show ?case by (simp add: handleHit_def)
next
  case (reachable_handleReset phys)
  show ?case by (simp add: handleReset_def)
qed

theorem resetting_unreachable_witness:
  "reachable (update MassMedium SpeedMedium (handleHit physicsRef_initial))
   \<and> state (update MassMedium SpeedMedium (handleHit physicsRef_initial)) \<noteq> Resetting"
proof -
  have r: "reachable (update MassMedium SpeedMedium (handleHit physicsRef_initial))"
    by (intro reachable_update reachable_handleHit reachable_initial)
  from resetting_unreachable [OF r] r show ?thesis
    by simp
qed

subsection \<open>Bounds on pi\<close>

text \<open>The angles of the hammer are fractions of \<open>pi\<close>; to count the frames of a swing,
  \<open>pi\<close> has to be known between 3 and 10/3.\<close>

lemma pi_gt_three: "3 < pi"
proof -
  have c: "cos (pi / 12) < 1"
    using cos_double_less_one [of "pi / 24"] pi_less_4 by simp
  have s: "0 < sin (pi / 12)"
    by (intro sin_gt_zero) (use pi_gt_zero in auto)
  have "sin (pi / 6) = 2 * sin (pi / 12) * cos (pi / 12)"
    using sin_double [of "pi / 12"] by simp
  also have "\<dots> < 2 * sin (pi / 12) * 1"
    using c s by (intro mult_strict_left_mono) auto
  also have "\<dots> \<le> 2 * (pi / 12)"
    using sin_x_le_x [of "pi / 12"] by simp
  finally show ?thesis
    by (simp add: sin_30)
qed

lemma sin_five_ninths: "1 / 2 < sin (5 / 9 :: real)"
proof -
  have "\<bar>sin (5 / 9 :: real) - (\<Sum>m<5. sin_coeff m * (5 / 9) ^ m)\<bar> \<le> inverse (fact 5) * \<bar>5 / 9\<bar> ^ 5"
    by (rule Maclaurin_sin_bound)
  moreover have "(\<Sum>m<5. sin_coeff m * (5 / 9 :: real) ^ m) = 5 / 9 - (5 / 9) ^ 3 / 6"
  proof -
    have c: "sin_coeff 0 = 0" "sin_coeff 1 = 1" "sin_coeff 2 = 0" "sin_coeff 3 = - 1 / 6"
      "sin_coeff 4 = 0"
      by (simp_all add: sin_coeff_def fact_numeral)
    have "(\<Sum>m<5. sin_coeff m * (5 / 9 :: real) ^ m) =
        sin_coeff 0 * (5 / 9) ^ 0 + sin_coeff 1 * (5 / 9) ^ 1 + sin_coeff 2 * (5 / 9) ^ 2
        + sin_coeff 3 * (5 / 9) ^ 3 + sin_coeff 4 * (5 / 9) ^ 4"
      by (simp add: eval_nat_numeral lessThan_Suc del: power_Suc)
    then show ?thesis
      by (simp only: c) simp
  qed
  ultimately have "5 / 9 - (5 / 9) ^ 3 / 6 - inverse (fact 5) * \<bar>5 / 9\<bar> ^ 5 \<le> sin (5 / 9 :: real)"
    by linarith
  moreover have "(1 / 2 :: real) < 5 / 9 - (5 / 9) ^ 3 / 6 - inverse (fact 5) * \<bar>5 / 9\<bar> ^ 5"
    by (simp add: fact_numeral power_divide)
  ultimately show ?thesis
    by linarith
qed

lemma pi_less_ten_thirds: "pi < 10 / 3"
proof (rule ccontr)
  assume "\<not> pi < 10 / 3"
  then have le: "5 / 9 \<le> pi / 6"
    by simp
  have "sin (5 / 9) \<le> sin (pi / 6)"
    using le pi_ge_two by (intro sin_monotone_2pi_le) auto
  with sin_five_ninths show False
    by (simp add: sin_30)
qed

subsection \<open>The run from the first click\<close>

lemma swing_heavy_fast:
  "(update MassHeavy SpeedFast ^^ 4) (handleHit physicsRef_initial) =
     \<lparr>state = Contact, hammerAngle = pi / 5 - 3 / 5, nailDepth = 0, maxDepth = 6 / 5,
      forceMagnitude = 50\<rparr>"
  using pi_gt_three pi_less_4
  by (simp add: eval_nat_numeral update_def handleHit_def physicsRef_initial_def Let_def
      INITIAL_HAMMER_ANGLE_def HAMMER_IMPACT_ANGLE_def calculateImpulse_def
      calculatePenetrationDepth_def calculateForceMagnitude_def)

lemma first_contact_eq:
  "first_contact =
     \<lparr>state = Contact, hammerAngle = pi / 5 - 3 / 5, nailDepth = 0, maxDepth = 6 / 5,
      forceMagnitude = 50\<rparr>"
  by (simp add: first_contact_def swing_heavy_fast)

lemma first_pause_eq:
  "first_pause =
     \<lparr>state = Pause, hammerAngle = pi / 5 - 3 / 5, nailDepth = 6 / 5, maxDepth = 6 / 5,
      forceMagnitude = 50\<rparr>"
  by (simp add: first_pause_def first_contact_eq eval_nat_numeral update_def)

lemma update_stays_off_idle:
  assumes "state phys = Swinging \<or> state phys = Contact \<or> state phys = Pause"
  shows "state (update massOption speedOption phys) = Swinging
       \<or> state (update massOption speedOption phys) = Contact
       \<or> state (update massOption speedOption phys) = Pause"
  using assms by (cases "state phys") (simp_all add: update_def Let_def)

lemma frames_stay_off_idle:
  assumes "state phys = Swinging \<or> state phys = Contact \<or> state phys = Pause"
  shows "state ((update massOption speedOption ^^ n) phys) = Swinging
       \<or> state ((update massOption speedOption ^^ n) phys) = Contact
       \<or> state ((update massOption speedOption ^^ n) phys) = Pause"
proof (induction n)
  case 0
  show ?case using assms by simp
next
  case (Suc n)
  from update_stays_off_idle [OF Suc.IH] show ?case by simp
qed

subsection \<open>The phases one after the other\<close>

text \<open>
  What the machine does phase by phase. After Hit in the initial state the hammer swings
  for \<open>swing_frames\<close> frames, 10, 5 or 4 by speed, and then is in Contact. From Contact the
  machine reaches Pause, with the nail at \<open>maxDepth\<close>; Pause is left by no frame. The full
  reset leads to Idle at once. The \<open>Resetting\<close> branch of \<open>update\<close>, from any state in that
  phase, would lead back to Idle with the nail depth 0 and the hammer at its initial
  angle.
\<close>

lemma swing_speed_positive: "0 < SWING_SPEED_RADS speedOption"
  by (cases speedOption) simp_all

lemma swing_before_impact:
  assumes "state phys = Swinging"
    and "HAMMER_IMPACT_ANGLE < hammerAngle phys - real k * SWING_SPEED_RADS speedOption"
  shows "(update massOption speedOption ^^ k) phys =
           phys\<lparr>hammerAngle := hammerAngle phys - real k * SWING_SPEED_RADS speedOption\<rparr>"
  using assms(2)
proof (induction k)
  case 0
  show ?case by simp
next
  case (Suc k)
  have "hammerAngle phys - real (Suc k) * SWING_SPEED_RADS speedOption
      \<le> hammerAngle phys - real k * SWING_SPEED_RADS speedOption"
    using swing_speed_positive [of speedOption] by (simp add: algebra_simps)
  with Suc.prems have "HAMMER_IMPACT_ANGLE < hammerAngle phys - real k * SWING_SPEED_RADS speedOption"
    by linarith
  from Suc.IH [OF this] Suc.prems assms(1) show ?case
    by (simp add: update_def Let_def algebra_simps)
qed

lemma swing_impact:
  assumes "state phys = Swinging"
    and "HAMMER_IMPACT_ANGLE < hammerAngle phys - real k * SWING_SPEED_RADS speedOption"
    and "hammerAngle phys - real (Suc k) * SWING_SPEED_RADS speedOption \<le> HAMMER_IMPACT_ANGLE"
  shows "(update massOption speedOption ^^ Suc k) phys =
           phys\<lparr>hammerAngle := hammerAngle phys - real (Suc k) * SWING_SPEED_RADS speedOption,
                state := Contact,
                maxDepth := maxDepth phys + calculatePenetrationDepth
                  (calculateImpulse (MASS_MAP massOption) (SWING_SPEED_RADS speedOption)),
                forceMagnitude := calculateForceMagnitude
                  (calculateImpulse (MASS_MAP massOption) (SWING_SPEED_RADS speedOption))\<rparr>"
  using swing_before_impact [OF assms(1,2), of massOption] assms(1,3)
  by (simp add: update_def Let_def algebra_simps)

lemma hit_reaches_contact:
  "(\<forall>k<swing_frames speedOption.
      state ((update massOption speedOption ^^ k) (handleHit physicsRef_initial)) = Swinging)
   \<and> state ((update massOption speedOption ^^ swing_frames speedOption)
        (handleHit physicsRef_initial)) = Contact"
proof -
  let ?h = "handleHit physicsRef_initial"
  let ?v = "SWING_SPEED_RADS speedOption"
  obtain j where j: "swing_frames speedOption = Suc j"
    by (cases speedOption) (simp_all add: eval_nat_numeral)
  have sw: "state ?h = Swinging" and a: "hammerAngle ?h = pi / 5"
    by (simp_all add: handleHit_def physicsRef_initial_def INITIAL_HAMMER_ANGLE_def)
  have before: "HAMMER_IMPACT_ANGLE < hammerAngle ?h - real j * ?v"
    using j pi_gt_three by (cases speedOption) (simp_all add: a HAMMER_IMPACT_ANGLE_def)
  have at: "hammerAngle ?h - real (Suc j) * ?v \<le> HAMMER_IMPACT_ANGLE"
    using j pi_less_ten_thirds
    by (cases speedOption) (simp_all add: a HAMMER_IMPACT_ANGLE_def)
  have "state ((update massOption speedOption ^^ k) ?h) = Swinging" if "k < Suc j" for k
  proof -
    have "real k * ?v \<le> real j * ?v"
      using that swing_speed_positive [of speedOption] by (intro mult_right_mono) simp_all
    with before have "HAMMER_IMPACT_ANGLE < hammerAngle ?h - real k * ?v"
      by linarith
    from swing_before_impact [OF sw this, of massOption] sw show ?thesis
      by simp
  qed
  moreover have "state ((update massOption speedOption ^^ Suc j) ?h) = Contact"
    by (simp only: swing_impact [OF sw before at]) simp
  ultimately show ?thesis
    by (simp only: j) simp
qed

lemma contact_reaches_pause_within:
  assumes "state phys = Contact" and "maxDepth phys - nailDepth phys \<le> 5 * real j"
  shows "\<exists>n\<le>Suc j. state ((update massOption speedOption ^^ n) phys) = Pause
           \<and> nailDepth ((update massOption speedOption ^^ n) phys) = maxDepth phys
           \<and> maxDepth ((update massOption speedOption ^^ n) phys) = maxDepth phys"
  using assms
proof (induction j arbitrary: phys)
  case 0
  then have "state (update massOption speedOption phys) = Pause
      \<and> nailDepth (update massOption speedOption phys) = maxDepth phys
      \<and> maxDepth (update massOption speedOption phys) = maxDepth phys"
    by (simp add: update_def)
  then show ?case
    by (intro exI [of _ "Suc 0"]) simp
next
  case (Suc j)
  let ?u = "update massOption speedOption"
  show ?case
  proof (cases "nailDepth phys < maxDepth phys")
    case False
    with Suc.prems(1) have "state (?u phys) = Pause \<and> nailDepth (?u phys) = maxDepth phys
        \<and> maxDepth (?u phys) = maxDepth phys"
      by (simp add: update_def)
    then show ?thesis
      by (intro exI [of _ "Suc 0"]) simp
  next
    case True
    with Suc.prems(1) have next_frame: "state (?u phys) = Contact"
        "nailDepth (?u phys) = nailDepth phys + 5" "maxDepth (?u phys) = maxDepth phys"
      by (simp_all add: update_def)
    then have "maxDepth (?u phys) - nailDepth (?u phys) \<le> 5 * real j"
      using Suc.prems(2) by simp
    from Suc.IH [OF next_frame(1) this] obtain n where n: "n \<le> Suc j"
        "state ((?u ^^ n) (?u phys)) = Pause"
        "nailDepth ((?u ^^ n) (?u phys)) = maxDepth (?u phys)"
        "maxDepth ((?u ^^ n) (?u phys)) = maxDepth (?u phys)"
      by blast
    then show ?thesis
      by (intro exI [of _ "Suc n"]) (simp add: funpow_swap1 next_frame(3))
  qed
qed

lemma contact_reaches_pause:
  assumes "state phys = Contact"
  shows "\<exists>n. state ((update massOption speedOption ^^ n) phys) = Pause
           \<and> nailDepth ((update massOption speedOption ^^ n) phys) = maxDepth phys"
proof -
  obtain j :: nat where "(maxDepth phys - nailDepth phys) / 5 \<le> real j"
    using real_arch_simple by blast
  then have "maxDepth phys - nailDepth phys \<le> 5 * real j"
    by simp
  from contact_reaches_pause_within [OF assms this, of massOption speedOption] show ?thesis
    by blast
qed

lemma pause_is_stable: "state phys = Pause \<Longrightarrow> update massOption speedOption phys = phys"
  by (simp add: update_def)

lemma handleReset_returns_to_idle:
  "state (handleReset phys) = Idle \<and> nailDepth (handleReset phys) = 0
   \<and> hammerAngle (handleReset phys) = INITIAL_HAMMER_ANGLE
   \<and> (update massOption speedOption ^^ n) (handleReset phys) = handleReset phys"
proof -
  have "update massOption speedOption (handleReset phys) = handleReset phys"
    by (simp add: update_def handleReset_def)
  then have "(update massOption speedOption ^^ n) (handleReset phys) = handleReset phys"
    by (induction n) simp_all
  then show ?thesis
    by (simp add: handleReset_def)
qed

lemma resetting_branch_returns_within:
  assumes "state phys = Resetting" and "INITIAL_HAMMER_ANGLE - hammerAngle phys \<le> real (Suc j) / 10"
  shows "\<exists>n\<le>Suc j. state ((update massOption speedOption ^^ n) phys) = Idle
           \<and> nailDepth ((update massOption speedOption ^^ n) phys) = 0
           \<and> hammerAngle ((update massOption speedOption ^^ n) phys) = INITIAL_HAMMER_ANGLE"
  using assms
proof (induction j arbitrary: phys)
  case 0
  then have "state (update massOption speedOption phys) = Idle
      \<and> nailDepth (update massOption speedOption phys) = 0
      \<and> hammerAngle (update massOption speedOption phys) = INITIAL_HAMMER_ANGLE"
    by (simp add: update_def Let_def)
  then show ?case
    by (intro exI [of _ "Suc 0"]) simp
next
  case (Suc j)
  let ?u = "update massOption speedOption"
  show ?case
  proof (cases "INITIAL_HAMMER_ANGLE \<le> hammerAngle phys + 1 / 10")
    case True
    with Suc.prems(1) have "state (?u phys) = Idle \<and> nailDepth (?u phys) = 0
        \<and> hammerAngle (?u phys) = INITIAL_HAMMER_ANGLE"
      by (simp add: update_def Let_def)
    then show ?thesis
      by (intro exI [of _ "Suc 0"]) simp
  next
    case False
    with Suc.prems(1) have next_frame: "state (?u phys) = Resetting"
        "hammerAngle (?u phys) = hammerAngle phys + 1 / 10"
      by (simp_all add: update_def Let_def)
    then have "INITIAL_HAMMER_ANGLE - hammerAngle (?u phys) \<le> real (Suc j) / 10"
      using Suc.prems(2) by (simp add: field_simps)
    from Suc.IH [OF next_frame(1) this] obtain n where n: "n \<le> Suc j"
        "state ((?u ^^ n) (?u phys)) = Idle"
        "nailDepth ((?u ^^ n) (?u phys)) = 0"
        "hammerAngle ((?u ^^ n) (?u phys)) = INITIAL_HAMMER_ANGLE"
      by blast
    then show ?thesis
      by (intro exI [of _ "Suc n"]) (simp add: funpow_swap1)
  qed
qed

lemma resetting_branch_returns:
  assumes "state phys = Resetting"
  shows "\<exists>n. state ((update massOption speedOption ^^ n) phys) = Idle
           \<and> nailDepth ((update massOption speedOption ^^ n) phys) = 0
           \<and> hammerAngle ((update massOption speedOption ^^ n) phys) = INITIAL_HAMMER_ANGLE"
proof -
  obtain j :: nat where "(INITIAL_HAMMER_ANGLE - hammerAngle phys) * 10 \<le> real j"
    using real_arch_simple by blast
  then have "INITIAL_HAMMER_ANGLE - hammerAngle phys \<le> real (Suc j) / 10"
    by simp
  from resetting_branch_returns_within [OF assms this, of massOption speedOption] show ?thesis
    by blast
qed

text \<open>
  Claim C2. From Idle, Hit and then frames reach Contact once, after a number of frames
  fixed by the swing speed, Contact moves to Pause once the nail depth has reached
  \<open>maxDepth\<close>, and the Up click in Pause brings the machine back to Idle with the nail
  depth 0 and the hammer at its initial angle. The code does the first two, not the third:
  the first button calls \<open>handleHit\<close> whatever its label, so a click in Pause starts another
  swing. At \<open>first_pause\<close> the machine is in Pause; after the click no number of frames,
  with any mass and speed, leads to Idle, and three frames later it is in Pause again
  with the nail driven twice as deep.
\<close>

theorem up_click_never_returns_to_idle:
  "state first_pause = Pause
   \<and> (\<forall>massOption speedOption n.
         state ((update massOption speedOption ^^ n) (handleHit first_pause)) \<noteq> Idle)
   \<and> (update MassHeavy SpeedFast ^^ 3) (handleHit first_pause) =
       \<lparr>state = Pause, hammerAngle = pi / 5 - 3 / 4, nailDepth = 12 / 5, maxDepth = 12 / 5,
        forceMagnitude = 50\<rparr>"
proof (intro conjI allI)
  show "state first_pause = Pause"
    by (simp add: first_pause_eq)
next
  fix massOption speedOption n
  have "state (handleHit first_pause) = Swinging"
    by (simp add: handleHit_def)
  then have "state (handleHit first_pause) = Swinging \<or> state (handleHit first_pause) = Contact
           \<or> state (handleHit first_pause) = Pause"
    by simp
  from frames_stay_off_idle [OF this, where massOption = massOption
      and speedOption = speedOption and n = n]
  show "state ((update massOption speedOption ^^ n) (handleHit first_pause)) \<noteq> Idle"
    by auto
next
  show "(update MassHeavy SpeedFast ^^ 3) (handleHit first_pause) =
       \<lparr>state = Pause, hammerAngle = pi / 5 - 3 / 4, nailDepth = 12 / 5, maxDepth = 12 / 5,
        forceMagnitude = 50\<rparr>"
    using pi_gt_three pi_less_4
    by (simp add: first_pause_eq eval_nat_numeral update_def handleHit_def Let_def
        HAMMER_IMPACT_ANGLE_def calculateImpulse_def calculatePenetrationDepth_def
        calculateForceMagnitude_def)
qed

text \<open>
  Claim C4. Within one swing the nail depth never decreases from frame to frame and never
  exceeds \<open>maxDepth\<close>. The code adds 5 to the depth while it is below \<open>maxDepth\<close> and sets it
  to \<open>maxDepth\<close> one frame later: at \<open>first_contact\<close> the depth is 0 and \<open>maxDepth\<close> is 6/5;
  the next frame leaves the machine in Contact with the depth 5, above \<open>maxDepth\<close>; the
  frame after that takes the depth down to 6/5.
\<close>

theorem nail_overshoots_maxDepth:
  "state first_contact = Contact
   \<and> nailDepth first_contact = 0
   \<and> maxDepth first_contact = 6 / 5
   \<and> state (update MassHeavy SpeedFast first_contact) = Contact
   \<and> nailDepth (update MassHeavy SpeedFast first_contact) = 5
   \<and> maxDepth (update MassHeavy SpeedFast first_contact) = 6 / 5
   \<and> maxDepth (update MassHeavy SpeedFast first_contact)
       < nailDepth (update MassHeavy SpeedFast first_contact)
   \<and> nailDepth (update MassHeavy SpeedFast (update MassHeavy SpeedFast first_contact)) = 6 / 5
   \<and> nailDepth (update MassHeavy SpeedFast (update MassHeavy SpeedFast first_contact))
       < nailDepth (update MassHeavy SpeedFast first_contact)"
  by (simp add: first_contact_eq update_def)

section \<open>Properties of the force arrows\<close>

lemma unit_direction_length:
  fixes ex ey f :: real
  assumes "ex \<noteq> 0 \<or> ey \<noteq> 0"
  shows "sqrt ((ex / sqrt (ex\<^sup>2 + ey\<^sup>2) * f)\<^sup>2 + (ey / sqrt (ex\<^sup>2 + ey\<^sup>2) * f)\<^sup>2) = \<bar>f\<bar>"
proof -
  let ?s = "ex\<^sup>2 + ey\<^sup>2"
  have pos: "0 < ?s"
    using assms by (auto simp: sum_power2_gt_zero_iff)
  have one: "ex\<^sup>2 / ?s + ey\<^sup>2 / ?s = 1"
  proof -
    have "ex\<^sup>2 / ?s + ey\<^sup>2 / ?s = ?s / ?s"
      by (simp only: add_divide_distrib)
    then show ?thesis
      using assms by auto
  qed
  have "(ex / sqrt ?s * f)\<^sup>2 + (ey / sqrt ?s * f)\<^sup>2 = (ex\<^sup>2 / ?s + ey\<^sup>2 / ?s) * f\<^sup>2"
    using pos by (simp add: power_mult_distrib power_divide distrib_right)
  then have "(ex / sqrt ?s * f)\<^sup>2 + (ey / sqrt ?s * f)\<^sup>2 = f\<^sup>2"
    by (simp only: one mult_1)
  then show ?thesis
    by simp
qed

text \<open>
  Claim C1. At every frame where the two opposing arrows of a scenario are drawn, both
  are drawn with the same length: \<open>drawScene\<close> makes either no call of \<open>drawArrow\<close> or
  exactly two, and the length argument of both is the one field \<open>forceMagnitude\<close> of the
  scenario's state. The two directions are opposite and the painted shafts are both as
  long as the absolute value of that field (for the gravity scenario, when the Moon is
  not at the Earth's centre, where the direction is 0/0). The hammer scenario draws the
  arrows in Pause, the gravity scenario when \<open>showForceArrows\<close> is set.
\<close>

theorem force_arrows_share_length:
  "(drawScene ctx phys \<noteq> [] \<longleftrightarrow> ctx \<and> state phys = Pause)
   \<and> (drawScene ctx phys = []
      \<or> (\<exists>a b. drawScene ctx phys = [a, b]
            \<and> arrow_length a = forceMagnitude phys \<and> arrow_length b = forceMagnitude phys
            \<and> arrow_dir b = invert (arrow_dir a)
            \<and> rendered_length a = \<bar>forceMagnitude phys\<bar>
            \<and> rendered_length b = \<bar>forceMagnitude phys\<bar>))
   \<and> (drawScene_g showForceArrows ctx gphys \<noteq> [] \<longleftrightarrow> ctx \<and> showForceArrows)
   \<and> (drawScene_g showForceArrows ctx gphys = []
      \<or> (\<exists>a b. drawScene_g showForceArrows ctx gphys = [a, b]
            \<and> arrow_length a = forceMagnitude_g gphys \<and> arrow_length b = forceMagnitude_g gphys
            \<and> ((moonX gphys, moonY gphys) \<noteq> (EARTH_X, EARTH_Y) \<longrightarrow>
                 arrow_dir b = invert (arrow_dir a)
                 \<and> rendered_length a = \<bar>forceMagnitude_g gphys\<bar>
                 \<and> rendered_length b = \<bar>forceMagnitude_g gphys\<bar>)))"
proof (intro conjI)
  show "drawScene ctx phys \<noteq> [] \<longleftrightarrow> ctx \<and> state phys = Pause"
    by (simp add: drawScene_def Let_def)
next
  show "drawScene ctx phys = []
      \<or> (\<exists>a b. drawScene ctx phys = [a, b]
            \<and> arrow_length a = forceMagnitude phys \<and> arrow_length b = forceMagnitude phys
            \<and> arrow_dir b = invert (arrow_dir a)
            \<and> rendered_length a = \<bar>forceMagnitude phys\<bar>
            \<and> rendered_length b = \<bar>forceMagnitude phys\<bar>)"
    by (simp add: drawScene_def Let_def invert_def rendered_length_def drawArrow_shaft_def)
next
  show "drawScene_g showForceArrows ctx gphys \<noteq> [] \<longleftrightarrow> ctx \<and> showForceArrows"
    by (simp add: drawScene_g_def Let_def)
next
  let ?ex = "EARTH_X - moonX gphys" and ?ey = "EARTH_Y - moonY gphys"
  let ?mx = "moonX gphys - EARTH_X" and ?my = "moonY gphys - EARTH_Y"
  let ?f = "forceMagnitude_g gphys"
  have dir: "?mx / m = - (?ex / m)" "?my / m = - (?ey / m)" for m
    using divide_minus_left [of ?ex m] divide_minus_left [of ?ey m] by simp_all
  have sq: "?mx\<^sup>2 = ?ex\<^sup>2" "?my\<^sup>2 = ?ey\<^sup>2"
    by (simp_all add: power2_commute)
  have to_earth: "sqrt ((?ex / sqrt (?ex\<^sup>2 + ?ey\<^sup>2) * ?f)\<^sup>2
      + (?ey / sqrt (?ex\<^sup>2 + ?ey\<^sup>2) * ?f)\<^sup>2) = \<bar>?f\<bar>"
    if "(moonX gphys, moonY gphys) \<noteq> (EARTH_X, EARTH_Y)"
    using that by (intro unit_direction_length) auto
  have to_moon: "sqrt ((?mx / sqrt (?mx\<^sup>2 + ?my\<^sup>2) * ?f)\<^sup>2
      + (?my / sqrt (?mx\<^sup>2 + ?my\<^sup>2) * ?f)\<^sup>2) = \<bar>?f\<bar>"
    if "(moonX gphys, moonY gphys) \<noteq> (EARTH_X, EARTH_Y)"
    using that by (intro unit_direction_length) auto
  show "drawScene_g showForceArrows ctx gphys = []
      \<or> (\<exists>a b. drawScene_g showForceArrows ctx gphys = [a, b]
            \<and> arrow_length a = forceMagnitude_g gphys \<and> arrow_length b = forceMagnitude_g gphys
            \<and> ((moonX gphys, moonY gphys) \<noteq> (EARTH_X, EARTH_Y) \<longrightarrow>
                 arrow_dir b = invert (arrow_dir a)
                 \<and> rendered_length a = \<bar>forceMagnitude_g gphys\<bar>
                 \<and> rendered_length b = \<bar>forceMagnitude_g gphys\<bar>))"
  proof (cases "ctx \<and> showForceArrows")
    case False
    then show ?thesis
      by (auto simp: drawScene_g_def)
  next
    case True
    let ?m = "sqrt (?ex\<^sup>2 + ?ey\<^sup>2)" and ?m2 = "sqrt (?mx\<^sup>2 + ?my\<^sup>2)"
    let ?a = "\<lparr>arrow_x = moonX gphys, arrow_y = moonY gphys, arrow_dir = (?ex / ?m, ?ey / ?m),
               arrow_length = ?f, arrow_color = ''#FF6B6B'',
               arrow_label = ''F_E'', arrow_labelAlign = AlignRight\<rparr>"
    let ?b = "\<lparr>arrow_x = EARTH_X, arrow_y = EARTH_Y, arrow_dir = (?mx / ?m2, ?my / ?m2),
               arrow_length = ?f, arrow_color = ''#4ECDC4'',
               arrow_label = ''F_M'', arrow_labelAlign = AlignLeft\<rparr>"
    have calls: "drawScene_g showForceArrows ctx gphys = [?a, ?b]"
      using True by (simp add: drawScene_g_def Let_def)
    have inv: "arrow_dir ?b = invert (arrow_dir ?a)"
      by (simp add: invert_def sq dir)
    have ra: "rendered_length ?a = \<bar>?f\<bar>"
      if "(moonX gphys, moonY gphys) \<noteq> (EARTH_X, EARTH_Y)"
      using to_earth [OF that] by (simp add: rendered_length_def drawArrow_shaft_def power2_eq_square)
    have rb: "rendered_length ?b = \<bar>?f\<bar>"
      if "(moonX gphys, moonY gphys) \<noteq> (EARTH_X, EARTH_Y)"
      using to_moon [OF that] by (simp add: rendered_length_def drawArrow_shaft_def power2_eq_square)
    show ?thesis
      using calls inv ra rb by (intro disjI2 exI [of _ ?a] exI [of _ ?b]) simp
  qed
qed

theorem force_arrows_share_length_witness:
  "(drawScene True first_pause \<noteq> [])
   \<and> (\<exists>a b. drawScene True first_pause = [a, b] \<and> arrow_length a = 50 \<and> arrow_length b = 50
          \<and> rendered_length a = 50 \<and> rendered_length b = 50)
   \<and> (moonX orbit_sample, moonY orbit_sample) \<noteq> (EARTH_X, EARTH_Y)
   \<and> (\<exists>a b. drawScene_g True True orbit_sample = [a, b]
          \<and> arrow_length a = 1 / 12 \<and> arrow_length b = 1 / 12
          \<and> arrow_dir a = (0, - 1) \<and> arrow_dir b = (0, 1)
          \<and> rendered_length a = 1 / 12 \<and> rendered_length b = 1 / 12)"
proof -
  have s: "sqrt 90000 = 300"
    using real_sqrt_abs [of 300] by simp
  from force_arrows_share_length [where ctx = True and phys = first_pause
      and showForceArrows = True and gphys = orbit_sample] s
  show ?thesis
    by (simp add: first_pause_eq orbit_sample_def drawScene_def drawScene_g_def Let_def
        EARTH_X_def EARTH_Y_def invert_def)
qed

section \<open>Properties of the gravity scenario\<close>

text \<open>
  Claim C9. For a pointer move during a drag (on a canvas of positive size) whose distance
  from the Earth's centre is \<open>d\<close>, the \<open>moonDistance\<close> stored is
  \<open>max MIN_DISTANCE (min MAX_DISTANCE d)\<close>; it lies between the two bounds, and the Moon is
  placed at that distance from the Earth's centre.
\<close>

theorem drag_clamps_distance:
  assumes "0 < rect_width rect" and "0 < rect_height rect"
  shows "moonDistance (handleCanvasMouseMove True (Some rect) e phys) =
           max MIN_DISTANCE (min MAX_DISTANCE (pointer_distance rect e))
       \<and> MIN_DISTANCE \<le> moonDistance (handleCanvasMouseMove True (Some rect) e phys)
       \<and> moonDistance (handleCanvasMouseMove True (Some rect) e phys) \<le> MAX_DISTANCE
       \<and> (moonX (handleCanvasMouseMove True (Some rect) e phys) - EARTH_X)\<^sup>2
           + (moonY (handleCanvasMouseMove True (Some rect) e phys) - EARTH_Y)\<^sup>2
         = (moonDistance (handleCanvasMouseMove True (Some rect) e phys))\<^sup>2"
proof (intro conjI)
  show "moonDistance (handleCanvasMouseMove True (Some rect) e phys) =
           max MIN_DISTANCE (min MAX_DISTANCE (pointer_distance rect e))"
    by (simp add: handleCanvasMouseMove_def pointer_distance_def Let_def)
  show "MIN_DISTANCE \<le> moonDistance (handleCanvasMouseMove True (Some rect) e phys)"
    by (simp add: handleCanvasMouseMove_def Let_def)
  show "moonDistance (handleCanvasMouseMove True (Some rect) e phys) \<le> MAX_DISTANCE"
    by (simp add: handleCanvasMouseMove_def Let_def MIN_DISTANCE_def MAX_DISTANCE_def)
  have circle: "(d * cos a)\<^sup>2 + (d * sin a)\<^sup>2 = d\<^sup>2" for d a :: real
  proof -
    have "(d * cos a)\<^sup>2 + (d * sin a)\<^sup>2 = d\<^sup>2 * ((cos a)\<^sup>2 + (sin a)\<^sup>2)"
      by (simp only: power_mult_distrib distrib_left)
    also have "\<dots> = d\<^sup>2"
      by simp
    finally show ?thesis .
  qed
  show "(moonX (handleCanvasMouseMove True (Some rect) e phys) - EARTH_X)\<^sup>2
           + (moonY (handleCanvasMouseMove True (Some rect) e phys) - EARTH_Y)\<^sup>2
         = (moonDistance (handleCanvasMouseMove True (Some rect) e phys))\<^sup>2"
    by (simp add: handleCanvasMouseMove_def Let_def circle)
qed

theorem drag_clamps_distance_witness:
  "0 < rect_width \<lparr>rect_left = 0, rect_top = 0, rect_width = 800, rect_height = 600\<rparr>
   \<and> 0 < rect_height \<lparr>rect_left = 0, rect_top = 0, rect_width = 800, rect_height = 600\<rparr>
   \<and> pointer_distance \<lparr>rect_left = 0, rect_top = 0, rect_width = 800, rect_height = 600\<rparr>
        \<lparr>clientX = 700, clientY = 700\<rparr> = 500
   \<and> moonDistance (handleCanvasMouseMove True
        (Some \<lparr>rect_left = 0, rect_top = 0, rect_width = 800, rect_height = 600\<rparr>)
        \<lparr>clientX = 700, clientY = 700\<rparr> physicsRef_initial_g) = 400"
proof -
  let ?rect = "\<lparr>rect_left = 0, rect_top = 0, rect_width = 800, rect_height = 600\<rparr>"
  have w: "0 < rect_width ?rect" and h: "0 < rect_height ?rect"
    by simp_all
  have "sqrt 250000 = 500"
    using real_sqrt_abs [of 500] by simp
  then have d: "pointer_distance ?rect \<lparr>clientX = 700, clientY = 700\<rparr> = 500"
    by (simp add: pointer_distance_def CANVAS_WIDTH_def CANVAS_HEIGHT_def EARTH_X_def EARTH_Y_def)
  from drag_clamps_distance [OF w h, of "\<lparr>clientX = 700, clientY = 700\<rparr>" physicsRef_initial_g] d
  show ?thesis
    by (simp add: MIN_DISTANCE_def MAX_DISTANCE_def)
qed

lemma update_g_running:
  assumes "state_g phys = Running"
  shows "state_g (update_g earthMass moonMass phys) = Running"
    and "pathPoints (update_g earthMass moonMass phys) =
           (if length (pathPoints phys) > 500 then tl (pathPoints phys) else pathPoints phys)
           @ [moon_position (update_g earthMass moonMass phys)]"
  using assms by (simp_all add: update_g_def Let_def moon_position_def)

lemma frames_running:
  assumes "state_g phys = Running"
  shows "state_g ((update_g earthMass moonMass ^^ n) phys) = Running"
  by (induction n) (simp_all add: assms update_g_running(1))

lemma tl_map_upt: "tl (map f [i..<j]) = map f [Suc i..<j]"
  by (cases "i < j") (simp_all add: upt_conv_Cons)

lemma trail_after_frames:
  assumes "state_g phys = Running" and "pathPoints phys = []"
  shows "pathPoints ((update_g earthMass moonMass ^^ n) phys) =
           map (\<lambda>k. moon_position ((update_g earthMass moonMass ^^ k) phys))
             [Suc (n - 501)..<Suc n]"
proof (induction n)
  case 0
  show ?case using assms by simp
next
  case (Suc n)
  let ?pos = "\<lambda>k. moon_position ((update_g earthMass moonMass ^^ k) phys)"
  let ?s = "(update_g earthMass moonMass ^^ n) phys"
  have run: "state_g ?s = Running"
    by (rule frames_running [OF assms(1)])
  have len: "length (pathPoints ?s) = min n 501"
    by (simp add: Suc.IH; arith)
  have step: "pathPoints ((update_g earthMass moonMass ^^ Suc n) phys) =
      (if length (pathPoints ?s) > 500 then tl (pathPoints ?s) else pathPoints ?s) @ [?pos (Suc n)]"
    using update_g_running(2) [OF run] by simp
  show ?case
  proof (cases "500 < n")
    case True
    then have a: "Suc (n - 501) = n - 500" and b: "Suc n - 501 = n - 500"
      and c: "n - 500 \<le> n"
      by simp_all
    have "tl (pathPoints ?s) = map ?pos [Suc (n - 500)..<Suc n]"
      by (simp only: Suc.IH tl_map_upt a)
    moreover have "500 < length (pathPoints ?s)"
      using True len by simp
    ultimately have "pathPoints ((update_g earthMass moonMass ^^ Suc n) phys) =
        map ?pos [Suc (n - 500)..<Suc n] @ [?pos (Suc n)]"
      by (simp only: step if_True)
    also have "\<dots> = map ?pos [Suc (n - 500)..<Suc (Suc n)]"
      using c by simp
    finally show ?thesis
      by (simp only: b)
  next
    case False
    then have b: "Suc n - 501 = 0" and a: "n - 501 = 0"
      by simp_all
    have "\<not> 500 < length (pathPoints ?s)"
      using False len by simp
    then have "pathPoints ((update_g earthMass moonMass ^^ Suc n) phys) =
        map ?pos [Suc 0..<Suc n] @ [?pos (Suc n)]"
      by (simp only: step if_False Suc.IH a)
    also have "\<dots> = map ?pos [Suc 0..<Suc (Suc n)]"
      by simp
    finally show ?thesis
      by (simp only: b)
  qed
qed

text \<open>
  Claim C3, as amended. \<open>update_g\<close> drops the oldest point when the trail is longer than
  500 points and then appends the new one. So from the empty trail, after \<open>N > 500\<close>
  frames in the Running phase, \<open>pathPoints\<close> has exactly 501 points, one more than the 500
  the code compares with: the 501 most recent positions of the Moon, oldest first.
\<close>

theorem trail_holds_last_501:
  assumes "state_g phys = Running" and "pathPoints phys = []" and "500 < N"
  shows "length (pathPoints ((update_g earthMass moonMass ^^ N) phys)) = 501
       \<and> pathPoints ((update_g earthMass moonMass ^^ N) phys) =
           map (\<lambda>k. moon_position ((update_g earthMass moonMass ^^ k) phys)) [N - 500..<N + 1]"
proof -
  have "Suc (N - 501) = N - 500"
    using assms(3) by simp
  then show ?thesis
    using trail_after_frames [OF assms(1,2), where earthMass = earthMass
        and moonMass = moonMass and n = N] assms(3)
    by simp
qed

theorem trail_holds_last_501_witness:
  "state_g (handlePlay physicsRef_initial_g) = Running
   \<and> pathPoints (handlePlay physicsRef_initial_g) = []
   \<and> (500::nat) < 502
   \<and> length (pathPoints ((update_g Key_earth Key_0_5 ^^ 502) (handlePlay physicsRef_initial_g))) = 501
   \<and> pathPoints ((update_g Key_earth Key_0_5 ^^ 502) (handlePlay physicsRef_initial_g)) =
       map (\<lambda>k. moon_position ((update_g Key_earth Key_0_5 ^^ k) (handlePlay physicsRef_initial_g)))
         [2..<503]"
proof -
  have r: "state_g (handlePlay physicsRef_initial_g) = Running"
    and e: "pathPoints (handlePlay physicsRef_initial_g) = []"
    by (simp_all add: handlePlay_def physicsRef_initial_g_def)
  have n: "(500::nat) < 502"
    by simp
  from trail_holds_last_501 [OF r e n, where earthMass = Key_earth and moonMass = Key_0_5] r e
  show ?thesis
    by simp
qed

text \<open>
  Claim C3 as stated, with the cap the code's 500, fails: after 501 frames from the empty
  trail the length is not 500.
\<close>

theorem trail_cap_counterexample:
  "state_g (handlePlay physicsRef_initial_g) = Running
   \<and> pathPoints (handlePlay physicsRef_initial_g) = []
   \<and> (500::nat) < 501
   \<and> length (pathPoints ((update_g Key_earth Key_0_5 ^^ 501) (handlePlay physicsRef_initial_g))) \<noteq> 500"
proof -
  have r: "state_g (handlePlay physicsRef_initial_g) = Running"
    and e: "pathPoints (handlePlay physicsRef_initial_g) = []"
    by (simp_all add: handlePlay_def physicsRef_initial_g_def)
  have "length (pathPoints ((update_g Key_earth Key_0_5 ^^ 501) (handlePlay physicsRef_initial_g))) = 501"
    by (simp add: trail_after_frames [OF r e])
  with r e show ?thesis
    by simp
qed

end
